theory Spec2Isabelle
  imports Main "HOL-Library.Word" "HOL-Library.Monad_Syntax"
begin

section \<open>ILI9341Driver.cpp: a shallow embedding\<close>

text \<open>
  The driver streams a framebuffer of RGB565 pixels to an ILI9341 panel. This theory
  embeds the functions of \<^verbatim>\<open>src/ILI9341Driver.cpp\<close> that the specification speaks
  about: the panel settings (\<^verbatim>\<open>setScroll\<close>, \<^verbatim>\<open>setRotation\<close>, \<^verbatim>\<open>setRefreshMode\<close>), the
  scanline clock (\<^verbatim>\<open>_getScanLine\<close>), the pixel pushers, the buffering coordinator
  (\<^verbatim>\<open>update\<close>, \<^verbatim>\<open>_buffer2fullCB\<close>) and the upload state machine (\<^verbatim>\<open>_updateAsync\<close>,
  \<^verbatim>\<open>_subFrameTimerStartcb2\<close>, \<^verbatim>\<open>_subFrameInterruptDiff\<close>, \<^verbatim>\<open>_endframe\<close>).
\<close>

subsection \<open>C++ integer arithmetic\<close>

text \<open>
  \<^verbatim>\<open>int\<close> is 32 bits wide on the target. Signed overflow is undefined in C++; the
  model takes the two's complement result that the target computes, written out as
  \<open>wrap32\<close>. Division and remainder truncate towards zero.
\<close>

definition wrap32 :: "int \<Rightarrow> int" where
  "wrap32 v = (v + 2147483648) mod 4294967296 - 2147483648"

definition tdiv :: "int \<Rightarrow> int \<Rightarrow> int" where
  "tdiv a b = sgn a * sgn b * (\<bar>a\<bar> div \<bar>b\<bar>)"

definition tmod :: "int \<Rightarrow> int \<Rightarrow> int" where
  "tmod a b = a - b * tdiv a b"

subsection \<open>Constants of the absent header\<close>

text \<open>
  Modelled from the spec: the macros \<^verbatim>\<open>ILI9341_T4_TFTWIDTH\<close>, \<^verbatim>\<open>ILI9341_T4_TFTHEIGHT\<close>
  and \<^verbatim>\<open>ILI9341_T4_NB_SCANLINES\<close> are defined in \<^verbatim>\<open>ILI9341Driver.h\<close>, which is not part
  of the sources. The spec fixes the panel at 240 x 320 pixels and 320 scanlines per
  refresh; the source agrees where it writes the numbers out (\<^verbatim>\<open>offset % 320\<close> in
  \<^verbatim>\<open>setScroll\<close>, the comments \<^verbatim>\<open>portrait 240x320\<close> and \<^verbatim>\<open>map [0,161] to [0, 319]\<close>).
\<close>

definition TFTWIDTH :: int where
  "TFTWIDTH = 240"

definition TFTHEIGHT :: int where
  "TFTHEIGHT = 320"

definition NB_SCANLINES :: int where
  "NB_SCANLINES = 320"

subsection \<open>setScroll: normalising the offset\<close>

text \<open>
  \<^verbatim>\<open>
  if (offset < 0)
      { offset += (((-offset) / ILI9341_T4_TFTHEIGHT) + 1) * ILI9341_T4_TFTHEIGHT; }
  offset = offset % 320;
  ...
  _writedata16_cont(offset);
  \<close>
  The parameter is an \<^verbatim>\<open>int\<close>, read here from a 32-bit word. \<open>setScroll_offset\<close> is the
  value of \<^verbatim>\<open>offset\<close> after the two assignments; \<^verbatim>\<open>_writedata16_cont\<close> takes a
  \<^verbatim>\<open>uint16_t\<close>, so the value on the wire is \<open>setScroll_data\<close>.
\<close>

definition setScroll_offset :: "32 word \<Rightarrow> int" where
  "setScroll_offset w =
     (let offset = sint w;
          offset = (if offset < 0
                    then wrap32 (offset
                           + wrap32 (wrap32 (tdiv (wrap32 (- offset)) TFTHEIGHT + 1) * TFTHEIGHT))
                    else offset)
      in tmod offset 320)"


subsection \<open>The pixel pushers\<close>

text \<open>
  A framebuffer pointer is modelled by the memory it points into: a function from the
  word offset relative to the pointer to the 16-bit pixel stored there. Each pusher
  returns the list of words it hands to \<^verbatim>\<open>_writedata16_cont\<close>, in order. The loop
  \<^verbatim>\<open>while (len-- > 0)\<close> is the recursion on \<open>len\<close>.
\<close>

function pushloop0 :: "(int \<Rightarrow> 'a) \<Rightarrow> int \<Rightarrow> int \<Rightarrow> 'a list" where
  "pushloop0 fb p len = (if len > 0 then fb p # pushloop0 fb (p + 1) (len - 1) else [])"
  by pat_completeness auto
termination
  by (relation "measure (\<lambda>(fb, p, len). nat len)") auto

definition pushpixels_mode0 :: "(int \<Rightarrow> 'a) \<Rightarrow> int \<Rightarrow> int \<Rightarrow> int \<Rightarrow> 'a list" where
  "pushpixels_mode0 fb x y len = pushloop0 fb (x + (y * TFTWIDTH)) len"

function pushloop1 :: "(int \<Rightarrow> 'a) \<Rightarrow> int \<Rightarrow> int \<Rightarrow> int \<Rightarrow> 'a list" where
  "pushloop1 fb x y len =
     (if len > 0
      then fb (x + TFTHEIGHT * y)
           # (let y = y - 1 in
              if y < 0 then pushloop1 fb (x + 1) (TFTWIDTH - 1) (len - 1)
              else pushloop1 fb x y (len - 1))
      else [])"
  by pat_completeness auto
termination
  by (relation "measure (\<lambda>(fb, x, y, len). nat len)") auto

definition pushpixels_mode1 :: "(int \<Rightarrow> 'a) \<Rightarrow> int \<Rightarrow> int \<Rightarrow> int \<Rightarrow> 'a list" where
  "pushpixels_mode1 fb xx yy len = pushloop1 fb yy (TFTWIDTH - 1 - xx) len"

function pushloop2 :: "(int \<Rightarrow> 'a) \<Rightarrow> int \<Rightarrow> int \<Rightarrow> 'a list" where
  "pushloop2 fb p len = (if len > 0 then fb p # pushloop2 fb (p - 1) (len - 1) else [])"
  by pat_completeness auto
termination
  by (relation "measure (\<lambda>(fb, p, len). nat len)") auto

definition pushpixels_mode2 :: "(int \<Rightarrow> 'a) \<Rightarrow> int \<Rightarrow> int \<Rightarrow> int \<Rightarrow> 'a list" where
  "pushpixels_mode2 fb xx yy len =
     (let x = TFTWIDTH - 1 - xx; y = TFTHEIGHT - 1 - yy
      in pushloop2 fb (x + (y * TFTWIDTH)) len)"

function pushloop3 :: "(int \<Rightarrow> 'a) \<Rightarrow> int \<Rightarrow> int \<Rightarrow> int \<Rightarrow> 'a list" where
  "pushloop3 fb x y len =
     (if len > 0
      then fb (x + TFTHEIGHT * y)
           # (let y = y + 1 in
              if y \<ge> TFTWIDTH then pushloop3 fb (x - 1) 0 (len - 1)
              else pushloop3 fb x y (len - 1))
      else [])"
  by pat_completeness auto
termination
  by (relation "measure (\<lambda>(fb, x, y, len). nat len)") auto

definition pushpixels_mode3 :: "(int \<Rightarrow> 'a) \<Rightarrow> int \<Rightarrow> int \<Rightarrow> int \<Rightarrow> 'a list" where
  "pushpixels_mode3 fb xx yy len = pushloop3 fb (TFTHEIGHT - 1 - yy) xx len"

declare pushloop0.simps [simp del] pushloop1.simps [simp del]
  pushloop2.simps [simp del] pushloop3.simps [simp del]

subsection \<open>The driver object\<close>

text \<open>
  Pointers are addresses, \<open>None\<close> is \<^verbatim>\<open>nullptr\<close>. The framebuffers and the diff buffers
  live in two stores of the driver state, so that swapping two pointers and writing
  through one of them are different things, as in the source.
\<close>

datatype buffering = NO_BUFFERING | DOUBLE_BUFFERING | TRIPLE_BUFFERING

datatype dma = DMA_IDLE | DMA_ON

text \<open>\<^verbatim>\<open>_buffer2fullCB\<close> is the only method the source ever hands to \<^verbatim>\<open>_setCB\<close>.\<close>

datatype callback = Buffer2fullCB

text \<open>
  The interrupt that is armed while an upload is in flight: the one-shot timer
  (\<^verbatim>\<open>_setTimerIn\<close>, \<^verbatim>\<open>_setTimerAt\<close>) with its callback, or the completion interrupt of the
  DMA channel (\<^verbatim>\<open>_dmatx.enable()\<close>).
\<close>

datatype irq = TimerStartcb | TimerStartcb2 | DmaInterruptDiff | TimerInterruptDiff2

datatype command = CASET | PASET | RAMWR | NOP | VSCRSADD | FRMCTR1

text \<open>
  What goes to the panel: a command byte, a data byte, a data word, or the run of pixel
  words that one DMA transfer streams.
\<close>

datatype frame_out = Cmd command | Data8 "8 word" | Data16 "16 word" | DmaData "16 word list"

type_synonym ptr = "nat option"

type_synonym frame = "int \<Rightarrow> 16 word"

text \<open>
  The classes \<^verbatim>\<open>DiffBuff\<close> and \<^verbatim>\<open>DiffBuffDummy\<close> are not part of the sources. A diff
  buffer is taken as the parameter it is for the driver: the answers \<open>(r, x, y, len)\<close>
  that its \<^verbatim>\<open>readDiff\<close> gives, call after call, and a read cursor. \<^verbatim>\<open>initRead\<close> rewinds
  the cursor; past the last answer \<^verbatim>\<open>readDiff\<close> returns \<open>-1\<close> (end of stream) and leaves
  \<open>x\<close>, \<open>y\<close>, \<open>len\<close> alone. The scanline argument is not interpreted.
\<close>

type_synonym answer = "int \<times> int \<times> int \<times> int"

record diffbuf =
  script :: "answer list"
  cursor :: nat

record driver =
  rotation :: nat
  refreshmode :: int
  width :: int
  height :: int
  late_start_ratio_override :: bool
  vsync_spacing :: int
  diff1 :: ptr
  diff2 :: ptr
  dummydiff1 :: nat
  dummydiff2 :: nat
  fb1 :: ptr
  fb2 :: ptr
  mirrorfb :: ptr
  fb2full :: bool
  period :: "32 word"
  synced_em :: "32 word"
  synced_scanline :: "32 word"
  pcb :: "callback option"
  cur_fb :: ptr
  cur_diff :: ptr
  dma_state :: dma
  slinitpos :: int
  em_async :: "32 word"
  margin :: int
  last_y :: int
  prev_caset_x :: int
  prev_paset_y :: int
  touch_request_read :: bool
  stats_nb_frame :: "32 word"
  stats_nb_uploaded_pixels :: int
  statsvar_margin :: "int list"
  nbteared :: "32 word"
  armed :: "irq option"
  panel_scanline :: "32 word"
  fbmem :: "nat \<Rightarrow> frame"
  diffmem :: "nat \<Rightarrow> diffbuf"
  spi_out :: "frame_out list"

text \<open>
  \<open>cur_fb\<close> and \<open>cur_diff\<close> are the members \<^verbatim>\<open>_fb\<close> and \<^verbatim>\<open>_diff\<close>. \<open>synced_em\<close> and
  \<open>em_async\<close> are stopwatches (\<^verbatim>\<open>elapsedMicros\<close>): the field holds what the stopwatch
  reads when the code looks at it. \<open>panel_scanline\<close> is the word the panel answers to the
  scanline query \<^verbatim>\<open>0x45\<close> (the third word received, \<^verbatim>\<open>res[0]\<close>). \<open>spi_out\<close> collects, in
  order, what has been sent to the panel. The fields that only time the CPU and the
  upload for the statistics, the touch controller and the SPI registers are left out.
\<close>

definition writes :: "frame_out list \<Rightarrow> driver \<Rightarrow> driver" where
  "writes fs s = s\<lparr>spi_out := spi_out s @ fs\<rparr>"

definition data16 :: "int \<Rightarrow> frame_out" where
  "data16 v = Data16 (word_of_int v)"

definition data8 :: "int \<Rightarrow> frame_out" where
  "data8 v = Data8 (word_of_int v)"

definition initRead :: "nat \<Rightarrow> driver \<Rightarrow> driver" where
  "initRead d s = s\<lparr>diffmem := (diffmem s)(d := (diffmem s d)\<lparr>cursor := 0\<rparr>)\<rparr>"

definition readDiff :: "nat \<Rightarrow> int \<times> int \<times> int \<Rightarrow> int \<Rightarrow> driver \<Rightarrow> answer \<times> driver" where
  "readDiff d xyl scanline s =
     (let b = diffmem s d in
      if cursor b < length (script b)
      then (script b ! cursor b, s\<lparr>diffmem := (diffmem s)(d := b\<lparr>cursor := cursor b + 1\<rparr>)\<rparr>)
      else ((- 1, xyl), s))"

subsection \<open>Inline members of the absent header\<close>

text \<open>
  Modelled from the spec: \<^verbatim>\<open>bufferingMode()\<close> is declared in \<^verbatim>\<open>ILI9341Driver.h\<close>. The
  spec derives the mode from the framebuffers: NO (no target framebuffer configured),
  DOUBLE (one target framebuffer), TRIPLE (two target framebuffers).
\<close>

definition bufferingMode :: "driver \<Rightarrow> buffering" where
  "bufferingMode s =
     (if fb1 s = None \<and> fb2 s = None then NO_BUFFERING
      else if fb1 s \<noteq> None \<and> fb2 s \<noteq> None then TRIPLE_BUFFERING
      else DOUBLE_BUFFERING)"

text \<open>
  Modelled from the spec: \<^verbatim>\<open>asyncUpdateActive()\<close> is declared in the header. An upload
  is in flight from the launch until the state machine is back to idle.
\<close>

definition asyncUpdateActive :: "driver \<Rightarrow> bool" where
  "asyncUpdateActive s = (dma_state s \<noteq> DMA_IDLE)"

text \<open>
  Modelled from the spec: \<^verbatim>\<open>resync()\<close> is declared in the header. The spec describes
  \<^verbatim>\<open>late_start_ratio_override\<close> as what forces the one-shot resynchronisation; the
  source sets that flag in the constructor and calls \<^verbatim>\<open>resync()\<close> wherever the panel has
  been reconfigured, next to an explicit \<^verbatim>\<open>_mirrorfb = nullptr\<close> where the mirror is to
  be cleared (\<^verbatim>\<open>begin\<close>, \<^verbatim>\<open>sleep\<close>, \<^verbatim>\<open>setRotation\<close>, \<^verbatim>\<open>setFramebuffers\<close>) and without one
  where it is not (\<^verbatim>\<open>selfDiagStatus\<close>, \<^verbatim>\<open>printStatus\<close>, \<^verbatim>\<open>invertDisplay\<close>).
\<close>

definition resync :: "driver \<Rightarrow> driver" where
  "resync s = s\<lparr>late_start_ratio_override := True\<rparr>"

text \<open>
  Modelled from the spec: \<^verbatim>\<open>_nbScanlineDuring(t)\<close> is declared in the header; the spec
  writes it \<open>em \<cdot> 320 / P\<close>. With a period of 0 the division is undefined: \<open>None\<close>.
\<close>

definition nbScanlineDuring :: "driver \<Rightarrow> 32 word \<Rightarrow> int option" where
  "nbScanlineDuring s t =
     (if period s = 0 then None else Some ((uint t * NB_SCANLINES) div uint (period s)))"

text \<open>
  Modelled from the spec: \<^verbatim>\<open>_clip\<close>, \<^verbatim>\<open>_setCB\<close>, \<^verbatim>\<open>_swapdiff\<close>, \<^verbatim>\<open>_swapdummydiff\<close> and
  \<^verbatim>\<open>_swapfb\<close> are declared in the header: the clamp of a value into a range, the store
  of the one-shot completion callback (no argument: none), and the exchange of the two
  diff buffers, of the two dummy diff buffers and of the two framebuffers.
\<close>

definition clip :: "nat \<Rightarrow> nat \<Rightarrow> nat \<Rightarrow> nat" where
  "clip v lo hi = (if v < lo then lo else if v > hi then hi else v)"

definition setCB :: "callback option \<Rightarrow> driver \<Rightarrow> driver" where
  "setCB cb s = s\<lparr>pcb := cb\<rparr>"

definition swapdiff :: "driver \<Rightarrow> driver" where
  "swapdiff s = s\<lparr>diff1 := diff2 s, diff2 := diff1 s\<rparr>"

definition swapdummydiff :: "driver \<Rightarrow> driver" where
  "swapdummydiff s = s\<lparr>dummydiff1 := dummydiff2 s, dummydiff2 := dummydiff1 s\<rparr>"

definition swapfb :: "driver \<Rightarrow> driver" where
  "swapfb s = s\<lparr>fb1 := fb2 s, fb2 := fb1 s\<rparr>"

subsection \<open>Statistics\<close>

text \<open>
  \<^verbatim>\<open>statsReset\<close> and \<^verbatim>\<open>_endframe\<close>, on the counters kept in the model. \<open>statsvar_margin\<close>
  is the list of the margins pushed so far.
\<close>

definition statsReset :: "driver \<Rightarrow> driver" where
  "statsReset s = s\<lparr>stats_nb_frame := 0, statsvar_margin := [], nbteared := 0\<rparr>"

definition endframe :: "driver \<Rightarrow> driver" where
  "endframe s =
     (let s = s\<lparr>stats_nb_frame := stats_nb_frame s + 1\<rparr> in
      if vsync_spacing s > 0
      then (let s = (if margin s < 0 then s\<lparr>nbteared := nbteared s + 1\<rparr> else s)
            in s\<lparr>statsvar_margin := statsvar_margin s @ [margin s]\<rparr>)
      else s)"

subsection \<open>The scanline clock\<close>

text \<open>
  \<^verbatim>\<open>_getScanLine(sync)\<close>. Without synchronisation the prediction is computed in
  \<^verbatim>\<open>uint64_t\<close> and returned as an \<^verbatim>\<open>int\<close>; a period of 0 makes the division undefined.
  With synchronisation the answer of the panel is remapped in \<^verbatim>\<open>int\<close> arithmetic.
\<close>

definition getScanLine :: "bool \<Rightarrow> driver \<Rightarrow> (int \<times> driver) option" where
  "getScanLine sync s =
     (if \<not> sync
      then (if period s = 0 then None
            else Some (sint (ucast (((ucast (synced_scanline s) :: 64 word)
                                      + (ucast (synced_em s) * 320) div ucast (period s))
                                    mod 320) :: 32 word), s))
      else (let res0 = sint (panel_scanline s);
                sc = wrap32 (wrap32 (2 * res0) - 3);
                sc = (if sc < 0 then 0 else sc)
            in Some (sc, s\<lparr>synced_em := 0, synced_scanline := word_of_int sc\<rparr>)))"

text \<open>
  \<^verbatim>\<open>_sampleRefreshRate\<close> polls the panel until it has seen eleven times the scanline
  leave 0, and sets the period to the mean of the ten intervals, rounded. What the
  hardware did is the parameter: \<open>None\<close> when the panel never shows the awaited
  scanline (the call does not return), \<open>Some (raw, em)\<close> with the last answer of the panel
  and the microseconds on the local stopwatch otherwise. \<^verbatim>\<open>round(em / 10.0)\<close> is
  \<open>(em + 5) div 10\<close> on an unsigned 32-bit \<open>em\<close>.
\<close>

definition sampleRefreshRate :: "(32 word \<times> 32 word) option \<Rightarrow> driver \<Rightarrow> driver option" where
  "sampleRefreshRate hw s =
     (case hw of
        None \<Rightarrow> None
      | Some (raw, em) \<Rightarrow>
          (case getScanLine True (s\<lparr>panel_scanline := raw\<rparr>) of
             None \<Rightarrow> None
           | Some (sc, s) \<Rightarrow> Some (s\<lparr>period := word_of_int ((uint em + 5) div 10)\<rparr>)))"

subsection \<open>The upload state machine\<close>

text \<open>
  Modelled from the spec: \<^verbatim>\<open>_microToReachScanLine(sc, sync)\<close> is declared in the header.
  Called with \<^verbatim>\<open>sync = true\<close> it issues the scanline query first; that is its only
  effect on the driver state.
\<close>

definition resyncScanLine :: "driver \<Rightarrow> driver" where
  "resyncScanLine s = (case getScanLine True s of None \<Rightarrow> s | Some (sc, s) \<Rightarrow> s)"

text \<open>
  The check of the margin that opens \<^verbatim>\<open>_subFrameInterruptDiff\<close>:
  \<^verbatim>\<open>
  if (_vsync_spacing > 0)
      {
      int m = _last_y + ILI9341_T4_TFTHEIGHT - _slinitpos - _nbScanlineDuring(_em_async);
      if (m < _margin) _margin = m;
      }
  \<close>
\<close>

definition checkMargin :: "driver \<Rightarrow> driver option" where
  "checkMargin s =
     (if vsync_spacing s > 0
      then do {
        nb \<leftarrow> nbScanlineDuring s (em_async s);
        let m = last_y s + TFTHEIGHT - slinitpos s - nb;
        Some (if m < margin s then s\<lparr>margin := m\<rparr> else s)
      }
      else Some s)"

text \<open>
  The scanline handed to \<^verbatim>\<open>readDiff\<close> by \<^verbatim>\<open>_updateNow\<close> and \<^verbatim>\<open>_subFrameInterruptDiff\<close>:
  \<^verbatim>\<open>(_vsync_spacing > 0) ? (_slinitpos + _nbScanlineDuring(_em_async)) : (2 * TFTHEIGHT)\<close>.
\<close>

definition instantScanline :: "driver \<Rightarrow> int option" where
  "instantScanline s =
     (if vsync_spacing s > 0
      then do { nb \<leftarrow> nbScanlineDuring s (em_async s); Some (slinitpos s + nb) }
      else Some (2 * TFTHEIGHT))"

text \<open>
  \<^verbatim>\<open>_subFrameTimerStartcb\<close>: the first timer callback only times the second one. With vsync
  it resynchronises the scanline clock and drops the one-shot override.
\<close>

definition subFrameTimerStartcb :: "driver \<Rightarrow> driver" where
  "subFrameTimerStartcb s =
     (if vsync_spacing s \<le> 0
      then s\<lparr>armed := Some TimerStartcb2\<rparr>
      else (let s = resyncScanLine s;
                s = s\<lparr>late_start_ratio_override := False\<rparr>
            in s\<lparr>armed := Some TimerStartcb2\<rparr>))"

text \<open>
  The remaining functions call each other: waiting for the end of an upload lets the
  interrupts run, the last interrupt of a frame invokes the completion callback, the
  callback launches the next upload, and launching waits. Each body is written with the
  functions it calls as parameters (\<open>invoke\<close> for \<^verbatim>\<open>if (_pcb) { (this->*_pcb)(); }\<close>,
  \<open>wait\<close> for \<^verbatim>\<open>waitUpdateAsyncComplete()\<close>, \<open>launch\<close> for \<^verbatim>\<open>_updateAsync\<close>); the knot is tied
  below by recursion on a bound. \<open>None\<close> stands for a call that does not return (a wait
  that nothing ends, a recursion that does not stop) or whose behaviour is undefined
  (a null pointer, a division by zero).
\<close>

text \<open>
  The end of a frame, which the source writes out in three places (the empty diff in
  \<^verbatim>\<open>_updateAsync\<close>, the corrupt first read in \<^verbatim>\<open>_subFrameTimerStartcb2\<close>, the end of the
  stream in \<^verbatim>\<open>_subFrameInterruptDiff\<close>):
  \<^verbatim>\<open>
  _endframe();
  if (_touch_request_read) { _updateTouch2(); _touch_request_read = false; }
  _dmaObject[_spi_num] = nullptr;
  _dma_state = ILI9341_T4_DMA_IDLE;
  if (_pcb) { (this->*_pcb)(); }
  _pcb = nullptr;
  \<close>
\<close>

definition finishFrame :: "(driver \<Rightarrow> driver option) \<Rightarrow> driver \<Rightarrow> driver option" where
  "finishFrame invoke s =
     do {
       let s = endframe s;
       let s = s\<lparr>touch_request_read := False\<rparr>;
       let s = s\<lparr>dma_state := DMA_IDLE\<rparr>;
       s \<leftarrow> invoke s;
       Some (s\<lparr>pcb := None\<rparr>)
     }"

text \<open>\<^verbatim>\<open>_subFrameTimerStartcb2\<close>\<close>

definition subFrameTimerStartcb2_with ::
  "(driver \<Rightarrow> driver option) \<Rightarrow> driver \<Rightarrow> driver option" where
  "subFrameTimerStartcb2_with invoke s =
     do {
       s \<leftarrow> (if vsync_spacing s > 0
             then do { (sl, s) \<leftarrow> getScanLine False s; Some (s\<lparr>slinitpos := sl, em_async := 0\<rparr>) }
             else Some s);
       let asl = (if vsync_spacing s > 0 then slinitpos s else 2 * TFTHEIGHT);
       d \<leftarrow> cur_diff s;
       let ((r, x, y, len), s) = readDiff d (0, 0, 0) asl s;
       if r \<noteq> 0 \<or> len = 0 \<or> x \<noteq> prev_caset_x s \<or> y \<noteq> prev_paset_y s
       then finishFrame invoke s
       else do {
         fb \<leftarrow> cur_fb s;
         let s = s\<lparr>last_y := tdiv (TFTWIDTH * y + x + len) TFTWIDTH\<rparr>;
         let s = s\<lparr>stats_nb_uploaded_pixels := len\<rparr>;
         let s = writes [Cmd RAMWR, DmaData (pushloop0 (fbmem s fb) (x + (y * TFTWIDTH)) len)] s;
         Some (s\<lparr>armed := Some DmaInterruptDiff\<rparr>)
       }
     }"

text \<open>\<^verbatim>\<open>_subFrameInterruptDiff\<close>\<close>

definition subFrameInterruptDiff_with ::
  "(driver \<Rightarrow> driver option) \<Rightarrow> driver \<Rightarrow> driver option" where
  "subFrameInterruptDiff_with invoke s =
     do {
       s \<leftarrow> checkMargin s;
       asl \<leftarrow> instantScanline s;
       d \<leftarrow> cur_diff s;
       let ((r, x, y, len), s) = readDiff d (0, 0, 0) asl s;
       if r < 0
       then finishFrame invoke s
       else if r > 0
       then Some (s\<lparr>armed := Some TimerInterruptDiff2\<rparr>)
       else do {
         fb \<leftarrow> cur_fb s;
         let s = (if x \<noteq> prev_caset_x s
                  then (writes [Cmd CASET, data16 x] s)\<lparr>prev_caset_x := x\<rparr> else s);
         let s = (if y \<noteq> prev_paset_y s
                  then (writes [Cmd PASET, data16 y] s)\<lparr>prev_paset_y := y\<rparr> else s);
         let s = writes [Cmd RAMWR] s;
         let s = s\<lparr>last_y := tdiv (TFTWIDTH * y + x + len) TFTWIDTH\<rparr>;
         let s = s\<lparr>stats_nb_uploaded_pixels := stats_nb_uploaded_pixels s + len\<rparr>;
         let s = writes [DmaData (pushloop0 (fbmem s fb) (x + (y * TFTWIDTH)) len)] s;
         Some (s\<lparr>armed := Some DmaInterruptDiff\<rparr>)
       }
     }"

text \<open>
  The armed interrupt fires and runs its handler. \<^verbatim>\<open>_dmaInterruptDiff\<close> and
  \<^verbatim>\<open>_subFrameInterruptDiff2\<close> both come down to \<^verbatim>\<open>_subFrameInterruptDiff\<close>. With the
  state machine busy and nothing armed, nothing will ever happen.
\<close>

definition fire_with :: "(driver \<Rightarrow> driver option) \<Rightarrow> driver \<Rightarrow> driver option" where
  "fire_with invoke s =
     (case armed s of
        None \<Rightarrow> None
      | Some TimerStartcb \<Rightarrow> Some (subFrameTimerStartcb (s\<lparr>armed := None\<rparr>))
      | Some TimerStartcb2 \<Rightarrow> subFrameTimerStartcb2_with invoke (s\<lparr>armed := None\<rparr>)
      | Some DmaInterruptDiff \<Rightarrow> subFrameInterruptDiff_with invoke (s\<lparr>armed := None\<rparr>)
      | Some TimerInterruptDiff2 \<Rightarrow> subFrameInterruptDiff_with invoke (s\<lparr>armed := None\<rparr>))"

text \<open>
  Modelled from the spec: \<^verbatim>\<open>waitUpdateAsyncComplete()\<close> is declared in the header; it
  blocks until the state machine is idle. Meanwhile the armed interrupts fire, at most
  as many as the bound.
\<close>

primrec waitUpdateAsyncComplete_with ::
  "(driver \<Rightarrow> driver option) \<Rightarrow> nat \<Rightarrow> driver \<Rightarrow> driver option" where
  "waitUpdateAsyncComplete_with invoke 0 s = (if dma_state s = DMA_IDLE then Some s else None)"
| "waitUpdateAsyncComplete_with invoke (Suc n) s =
     (if dma_state s = DMA_IDLE then Some s
      else do { s \<leftarrow> fire_with invoke s; waitUpdateAsyncComplete_with invoke n s })"

text \<open>\<^verbatim>\<open>_updateAsync\<close>\<close>

definition updateAsync_with ::
  "(driver \<Rightarrow> driver option) \<Rightarrow> (driver \<Rightarrow> driver option) \<Rightarrow> ptr \<Rightarrow> ptr \<Rightarrow> driver
   \<Rightarrow> driver option" where
  "updateAsync_with invoke wait fb diff s =
     (case (fb, diff) of
        (Some f, Some d) \<Rightarrow>
          do {
            s \<leftarrow> wait s;
            let s = s\<lparr>stats_nb_uploaded_pixels := 0\<rparr>;
            let s = s\<lparr>margin := NB_SCANLINES\<rparr>;
            let s = s\<lparr>dma_state := DMA_ON\<rparr>;
            let s = s\<lparr>cur_fb := fb\<rparr>;
            let s = s\<lparr>cur_diff := diff\<rparr>;
            let s = initRead d s;
            let ((sc1, x, y, len), s) = readDiff d (0, 0, 0) 0 s;
            if sc1 < 0
            then do {
              let s = (if vsync_spacing s > 0
                       then (resyncScanLine s)\<lparr>late_start_ratio_override := False\<rparr> else s);
              finishFrame invoke s
            }
            else do {
              let s = writes [Cmd CASET, data16 x, data16 TFTWIDTH,
                              Cmd PASET, data16 y, data16 TFTHEIGHT] s;
              let s = s\<lparr>prev_caset_x := x\<rparr>;
              let s = s\<lparr>prev_paset_y := y\<rparr>;
              let s = s\<lparr>slinitpos := sc1\<rparr>;
              Some (s\<lparr>armed := Some TimerStartcb\<rparr>)
            }
          }
      | _ \<Rightarrow> Some s)"

text \<open>\<^verbatim>\<open>_buffer2fullCB\<close>\<close>

definition buffer2fullCB_with ::
  "(ptr \<Rightarrow> ptr \<Rightarrow> driver \<Rightarrow> driver option) \<Rightarrow> driver \<Rightarrow> driver option" where
  "buffer2fullCB_with launch s =
     do {
       s \<leftarrow> (if mirrorfb s \<noteq> None
             then do {
               let s = swapdiff s;
               let s = swapfb s;
               let s = s\<lparr>mirrorfb := fb1 s\<rparr>;
               let s = s\<lparr>fb2full := False\<rparr>;
               launch (fb1 s) (diff1 s) s
             }
             else do {
               let s = swapdummydiff s;
               let s = swapfb s;
               let s = s\<lparr>mirrorfb := fb1 s\<rparr>;
               let s = s\<lparr>fb2full := False\<rparr>;
               launch (fb1 s) (Some (dummydiff1 s)) s
             });
       Some (setCB None s)
     }"

text \<open>
  \<^verbatim>\<open>if (_pcb) { (this->*_pcb)(); }\<close>, with the callback's own calls nested at most \<open>n\<close>
  deep.
\<close>

primrec invoke_pcb :: "nat \<Rightarrow> driver \<Rightarrow> driver option" where
  "invoke_pcb 0 s = (case pcb s of None \<Rightarrow> Some s | Some Buffer2fullCB \<Rightarrow> None)"
| "invoke_pcb (Suc n) s =
     (case pcb s of
        None \<Rightarrow> Some s
      | Some Buffer2fullCB \<Rightarrow>
          buffer2fullCB_with
            (updateAsync_with (invoke_pcb n) (waitUpdateAsyncComplete_with (invoke_pcb n) n)) s)"

definition waitUpdateAsyncComplete :: "nat \<Rightarrow> driver \<Rightarrow> driver option" where
  "waitUpdateAsyncComplete n = waitUpdateAsyncComplete_with (invoke_pcb n) n"

definition fire :: "nat \<Rightarrow> driver \<Rightarrow> driver option" where
  "fire n = fire_with (invoke_pcb n)"

definition subFrameTimerStartcb2 :: "nat \<Rightarrow> driver \<Rightarrow> driver option" where
  "subFrameTimerStartcb2 n = subFrameTimerStartcb2_with (invoke_pcb n)"

definition subFrameInterruptDiff :: "nat \<Rightarrow> driver \<Rightarrow> driver option" where
  "subFrameInterruptDiff n = subFrameInterruptDiff_with (invoke_pcb n)"

definition updateAsync :: "nat \<Rightarrow> ptr \<Rightarrow> ptr \<Rightarrow> driver \<Rightarrow> driver option" where
  "updateAsync n = updateAsync_with (invoke_pcb n) (waitUpdateAsyncComplete n)"

definition buffer2fullCB :: "nat \<Rightarrow> driver \<Rightarrow> driver option" where
  "buffer2fullCB n = buffer2fullCB_with (updateAsync n)"

subsection \<open>The synchronous upload\<close>

text \<open>
  Modelled from the spec: \<^verbatim>\<open>_pushpixels\<close> is declared in the header; it is the pixel
  pusher of the current rotation.
\<close>

definition pushpixels :: "nat \<Rightarrow> frame \<Rightarrow> int \<Rightarrow> int \<Rightarrow> int \<Rightarrow> 16 word list" where
  "pushpixels rot fb x y len =
     (if rot = 0 then pushpixels_mode0 fb x y len
      else if rot = 1 then pushpixels_mode1 fb x y len
      else if rot = 2 then pushpixels_mode2 fb x y len
      else pushpixels_mode3 fb x y len)"

text \<open>
  The loop \<^verbatim>\<open>while (1)\<close> of \<^verbatim>\<open>_updateNow\<close>, with the locals \<open>x\<close>, \<open>y\<close>, \<open>len\<close>, \<open>prev_x\<close>
  and \<open>prev_y\<close> as arguments. Every turn reads the diff; the loop ends with the stream.
\<close>

function updateNow_loop ::
  "nat \<Rightarrow> nat \<Rightarrow> int \<times> int \<times> int \<Rightarrow> int \<Rightarrow> int \<Rightarrow> driver \<Rightarrow> driver option" where
  "updateNow_loop fb d xyl prev_x prev_y s =
     (case instantScanline s of
        None \<Rightarrow> None
      | Some asl \<Rightarrow>
          (case readDiff d xyl asl s of
             ((r, x, y, len), s) \<Rightarrow>
               if r > 0 then updateNow_loop fb d (x, y, len) prev_x prev_y s
               else if r < 0 then Some (endframe (writes [Cmd NOP] s))
               else (let s = s\<lparr>stats_nb_uploaded_pixels := stats_nb_uploaded_pixels s + len\<rparr>;
                         s = (if x \<noteq> prev_x then writes [Cmd CASET, data16 x] s else s);
                         s = (if y \<noteq> prev_y then writes [Cmd PASET, data16 y] s else s);
                         s = writes [Cmd RAMWR] s;
                         s = writes (map Data16 (pushpixels (rotation s) (fbmem s fb) x y len)) s
                     in if vsync_spacing s > 0
                        then (case nbScanlineDuring s (em_async s) of
                                None \<Rightarrow> None
                              | Some nb \<Rightarrow>
                                  (let m = tdiv (TFTWIDTH * y + x + len) TFTWIDTH + TFTHEIGHT
                                           - slinitpos s - nb;
                                       s = (if m < margin s then s\<lparr>margin := m\<rparr> else s)
                                   in updateNow_loop fb d (x, y, len) x y s))
                        else updateNow_loop fb d (x, y, len) x y s)))"
  by pat_completeness auto
termination
  by (relation "measure (\<lambda>(fb, d, xyl, px, py, s).
                   length (script (diffmem s d)) - cursor (diffmem s d))")
     (auto simp: readDiff_def writes_def Let_def split: if_splits)

declare updateNow_loop.simps [simp del]

text \<open>\<^verbatim>\<open>_updateNow\<close>\<close>

definition updateNow :: "nat \<Rightarrow> ptr \<Rightarrow> ptr \<Rightarrow> driver \<Rightarrow> driver option" where
  "updateNow n fb diff s =
     (case (fb, diff) of
        (Some f, Some d) \<Rightarrow>
          do {
            s \<leftarrow> waitUpdateAsyncComplete n s;
            let s = s\<lparr>margin := NB_SCANLINES\<rparr>;
            let s = s\<lparr>stats_nb_uploaded_pixels := 0\<rparr>;
            let s = initRead d s;
            let ((sc1, x, y, len), s) = readDiff d (0, 0, 0) 0 s;
            if sc1 < 0
            then do {
              let s = (if vsync_spacing s > 0
                       then (resyncScanLine s)\<lparr>late_start_ratio_override := False\<rparr> else s);
              Some (endframe s)
            }
            else do {
              s \<leftarrow> (if vsync_spacing s > 0
                    then do {
                      let s = resyncScanLine s;
                      let s = s\<lparr>late_start_ratio_override := False\<rparr>;
                      (sl, s) \<leftarrow> getScanLine False s;
                      Some (s\<lparr>slinitpos := sl, em_async := 0\<rparr>)
                    }
                    else Some s);
              let s = writes [Cmd CASET, data16 x, data16 TFTWIDTH,
                              Cmd PASET, data16 y, data16 TFTHEIGHT] s;
              updateNow_loop f d (x, y, len) x y s
            }
          }
      | _ \<Rightarrow> Some s)"

subsection \<open>The buffering coordinator\<close>

text \<open>
  What \<^verbatim>\<open>update\<close> takes from outside the sources, as one parameter:
  \<^item> \<open>computed\<close>: the answers that the diff buffer filled by this call will give
    (\<^verbatim>\<open>computeDiff\<close> and \<^verbatim>\<open>computeDummyDiff\<close> belong to the absent diff classes; every path
    of \<^verbatim>\<open>update\<close> fills at most one diff buffer);
  \<^item> \<open>rotated\<close>: the image that \<^verbatim>\<open>DiffBuff::copyfb\<close>, and \<^verbatim>\<open>computeDiff\<close> when asked to copy,
    store for a source image under a rotation;
  \<^item> \<open>irqs_before_check\<close>, \<open>irqs_while_diffing\<close>: how many armed interrupts fire in the two
    stretches where \<^verbatim>\<open>update\<close> runs with interrupts enabled while an upload may be in
    flight: before it looks again whether the upload is active, and, in triple
    buffering, while the diff is computed and the frame copied.
\<close>

record env =
  computed :: "answer list"
  rotated :: "nat \<Rightarrow> frame \<Rightarrow> frame"
  irqs_before_check :: nat
  irqs_while_diffing :: nat

text \<open>
  \<^verbatim>\<open>diff->computeDiff(fb_old, fb_new, rotation, gap, copy, mask)\<close>: the diff buffer is
  filled and rewound; with \<open>copy\<close> the new image is stored in \<open>fb_old\<close>. A null
  framebuffer is undefined behaviour.
\<close>

definition computeDiff :: "env \<Rightarrow> nat \<Rightarrow> ptr \<Rightarrow> ptr \<Rightarrow> bool \<Rightarrow> driver \<Rightarrow> driver option" where
  "computeDiff ev d fb_old fb_new copy s =
     (case (fb_old, fb_new) of
        (Some old, Some new) \<Rightarrow>
          (let s = s\<lparr>diffmem := (diffmem s)(d := \<lparr>script = computed ev, cursor = 0\<rparr>)\<rparr>
           in Some (if copy
                    then s\<lparr>fbmem := (fbmem s)(old := rotated ev (rotation s) (fbmem s new))\<rparr>
                    else s))
      | _ \<Rightarrow> None)"

definition computeDummyDiff :: "env \<Rightarrow> nat \<Rightarrow> driver \<Rightarrow> driver" where
  "computeDummyDiff ev d s =
     s\<lparr>diffmem := (diffmem s)(d := \<lparr>script = computed ev, cursor = 0\<rparr>)\<rparr>"

definition copyfb :: "env \<Rightarrow> ptr \<Rightarrow> ptr \<Rightarrow> driver \<Rightarrow> driver option" where
  "copyfb ev dst src s =
     (case (dst, src) of
        (Some d, Some f) \<Rightarrow>
          Some (s\<lparr>fbmem := (fbmem s)(d := rotated ev (rotation s) (fbmem s f))\<rparr>)
      | _ \<Rightarrow> None)"

text \<open>\<open>k\<close> armed interrupts fire, or as many as there are.\<close>

primrec interrupts :: "nat \<Rightarrow> nat \<Rightarrow> driver \<Rightarrow> driver option" where
  "interrupts 0 n s = Some s"
| "interrupts (Suc k) n s =
     (if armed s = None then Some s else do { s \<leftarrow> fire n s; interrupts k n s })"

text \<open>
  \<^verbatim>\<open>while (_fb2full);\<close> spins until an interrupt has run the callback that frees \<^verbatim>\<open>_fb2\<close>.
\<close>

primrec waitFb2Free :: "nat \<Rightarrow> nat \<Rightarrow> driver \<Rightarrow> driver option" where
  "waitFb2Free 0 n s = (if fb2full s then None else Some s)"
| "waitFb2Free (Suc k) n s =
     (if fb2full s then do { s \<leftarrow> fire n s; waitFb2Free k n s } else Some s)"

text \<open>
  The launch that ends most paths of \<^verbatim>\<open>update\<close>, written out once:
  \<^verbatim>\<open>
  diff->computeDiff(_fb1, fb, getRotation(), _diff_gap, true, _compare_mask);
  _flush_cache(_fb1, ILI9341_T4_NB_PIXELS * 2);
  _updateAsync(_fb1, diff);
  \<close>
\<close>

definition diffAndLaunch :: "nat \<Rightarrow> env \<Rightarrow> ptr \<Rightarrow> ptr \<Rightarrow> driver \<Rightarrow> driver option" where
  "diffAndLaunch n ev diff fb s =
     do {
       d \<leftarrow> diff;
       s \<leftarrow> computeDiff ev d (fb1 s) fb True s;
       updateAsync n (fb1 s) diff s
     }"

text \<open>
  \<^verbatim>\<open>update(fb, force_full_redraw)\<close>, one definition for each case of its
  \<^verbatim>\<open>switch (bufferingMode())\<close>.
\<close>

definition updateNoBuffering :: "nat \<Rightarrow> env \<Rightarrow> ptr \<Rightarrow> driver \<Rightarrow> driver option" where
  "updateNoBuffering n ev fb s =
     do {
       s \<leftarrow> waitUpdateAsyncComplete n s;
       let s = s\<lparr>mirrorfb := None\<rparr>;
       let s = computeDummyDiff ev (dummydiff1 s) s;
       updateNow n fb (Some (dummydiff1 s)) s
     }"

definition updateDoubleBuffering :: "nat \<Rightarrow> env \<Rightarrow> ptr \<Rightarrow> bool \<Rightarrow> driver \<Rightarrow> driver option" where
  "updateDoubleBuffering n ev fb force_full_redraw s =
     (if vsync_spacing s = - 1 \<and> asyncUpdateActive s then Some s
      else if diff1 s = None \<or> mirrorfb s = None \<or> force_full_redraw
      then do {
        s \<leftarrow> waitUpdateAsyncComplete n s;
        s \<leftarrow> diffAndLaunch n ev (Some (dummydiff1 s)) fb s;
        Some (s\<lparr>mirrorfb := fb1 s\<rparr>)
      }
      else if diff2 s = None
      then do {
        s \<leftarrow> waitUpdateAsyncComplete n s;
        s \<leftarrow> (if mirrorfb s = None \<or> force_full_redraw
              then diffAndLaunch n ev (Some (dummydiff1 s)) fb s
              else diffAndLaunch n ev (diff1 s) fb s);
        Some (s\<lparr>mirrorfb := fb1 s\<rparr>)
      }
      else do {
        s \<leftarrow> interrupts (irqs_before_check ev) n s;
        s \<leftarrow> (if asyncUpdateActive s
              then do {
                d2 \<leftarrow> diff2 s;
                s \<leftarrow> computeDiff ev d2 (fb1 s) fb False s;
                s \<leftarrow> waitUpdateAsyncComplete n s;
                s \<leftarrow> copyfb ev (fb1 s) fb s;
                let s = swapdiff s;
                updateAsync n (fb1 s) (diff1 s) s
              }
              else diffAndLaunch n ev (diff1 s) fb s);
        Some (s\<lparr>mirrorfb := fb1 s\<rparr>)
      })"

text \<open>
  The end of the triple buffering case, once the diff is computed and the frame copied
  to \<^verbatim>\<open>_fb2\<close>: under \<^verbatim>\<open>noInterrupts()\<close>, stage the frame for the callback if the upload is
  still in flight, launch it otherwise. \<open>real\<close> tells the branch with a diff in
  \<^verbatim>\<open>_diff2\<close> from the branch with a dummy diff in \<^verbatim>\<open>_dummydiff2\<close>.
\<close>

definition stageOrLaunch :: "nat \<Rightarrow> bool \<Rightarrow> driver \<Rightarrow> driver option" where
  "stageOrLaunch n real s =
     (if asyncUpdateActive s
      then do {
        let s = setCB (Some Buffer2fullCB) s;
        let s = s\<lparr>fb2full := True\<rparr>;
        Some (s\<lparr>mirrorfb := (if real then fb2 s else None)\<rparr>)
      }
      else do {
        let s = (if real then swapdiff s else swapdummydiff s);
        let s = swapfb s;
        let s = s\<lparr>mirrorfb := fb1 s\<rparr>;
        updateAsync n (fb1 s) (if real then diff1 s else Some (dummydiff1 s)) s
      })"

definition updateTripleBuffering :: "nat \<Rightarrow> env \<Rightarrow> ptr \<Rightarrow> bool \<Rightarrow> driver \<Rightarrow> driver option" where
  "updateTripleBuffering n ev fb force_full_redraw s =
     (if \<not> asyncUpdateActive s
      then do {
        s \<leftarrow> (if diff2 s = None \<or> mirrorfb s = None \<or> force_full_redraw
              then diffAndLaunch n ev (Some (dummydiff1 s)) fb s
              else diffAndLaunch n ev (diff1 s) fb s);
        Some (s\<lparr>mirrorfb := fb1 s\<rparr>)
      }
      else do {
        s \<leftarrow> (if vsync_spacing s \<noteq> - 1 then waitFb2Free n n s else Some s);
        s \<leftarrow> interrupts (irqs_before_check ev) n s;
        if asyncUpdateActive s
        then do {
          let s = setCB None s;
          if mirrorfb s \<noteq> None \<and> \<not> force_full_redraw \<and> diff2 s \<noteq> None
          then do {
            d2 \<leftarrow> diff2 s;
            s \<leftarrow> computeDiff ev d2 (fb1 s) fb False s;
            s \<leftarrow> copyfb ev (fb2 s) fb s;
            s \<leftarrow> interrupts (irqs_while_diffing ev) n s;
            stageOrLaunch n True s
          }
          else do {
            s \<leftarrow> computeDiff ev (dummydiff2 s) (fb1 s) fb False s;
            s \<leftarrow> copyfb ev (fb2 s) fb s;
            s \<leftarrow> interrupts (irqs_while_diffing ev) n s;
            stageOrLaunch n False s
          }
        }
        else do {
          s \<leftarrow> (if mirrorfb s = None \<or> force_full_redraw \<or> diff2 s = None
                then diffAndLaunch n ev (Some (dummydiff1 s)) fb s
                else diffAndLaunch n ev (diff1 s) fb s);
          Some (s\<lparr>mirrorfb := fb1 s\<rparr>)
        }
      })"

definition update :: "nat \<Rightarrow> env \<Rightarrow> ptr \<Rightarrow> bool \<Rightarrow> driver \<Rightarrow> driver option" where
  "update n ev fb force_full_redraw s =
     (case bufferingMode s of
        NO_BUFFERING \<Rightarrow> updateNoBuffering n ev fb s
      | DOUBLE_BUFFERING \<Rightarrow> updateDoubleBuffering n ev fb force_full_redraw s
      | TRIPLE_BUFFERING \<Rightarrow> updateTripleBuffering n ev fb force_full_redraw s)"

subsection \<open>Panel settings\<close>


text \<open>\<^verbatim>\<open>setRotation(m)\<close>, with \<open>m\<close> a \<^verbatim>\<open>uint8_t\<close>\<close>

definition setRotation :: "nat \<Rightarrow> 8 word \<Rightarrow> driver \<Rightarrow> driver option" where
  "setRotation n m s =
     (let m = clip (unat m) 0 3 in
      if m = rotation s then Some s
      else do {
        s \<leftarrow> waitUpdateAsyncComplete n s;
        let s = s\<lparr>mirrorfb := None\<rparr>;
        let s = statsReset s;
        let s = s\<lparr>rotation := m\<rparr>;
        let s = (if m = 0 \<or> m = 2 then s\<lparr>width := TFTWIDTH, height := TFTHEIGHT\<rparr>
                 else s\<lparr>width := TFTHEIGHT, height := TFTWIDTH\<rparr>);
        Some (resync s)
      })"

text \<open>
  \<^verbatim>\<open>setRefreshMode(mode)\<close>; \<open>hw\<close> is what \<^verbatim>\<open>_sampleRefreshRate\<close> measures.
\<close>

definition setRefreshMode ::
  "nat \<Rightarrow> (32 word \<times> 32 word) option \<Rightarrow> int \<Rightarrow> driver \<Rightarrow> driver option" where
  "setRefreshMode n hw mode s =
     (if mode < 0 \<or> mode > 31 then Some s
      else do {
        let s = s\<lparr>refreshmode := mode\<rparr>;
        let (mode, diva) = (if mode \<ge> 16 then (mode - 16, 1) else (mode, 0));
        s \<leftarrow> waitUpdateAsyncComplete n s;
        let s = writes [Cmd FRMCTR1, data8 diva, data8 (0x10 + mode)] s;
        s \<leftarrow> sampleRefreshRate hw s;
        let s = statsReset s;
        Some (resync s)
      })"

subsection \<open>The constructor, and drivers to try the functions on\<close>

text \<open>
  \<^verbatim>\<open>ILI9341Driver::ILI9341Driver\<close>: the state of a fresh driver. The default vsync spacing
  is a macro of the absent header and is the parameter. The two dummy diff buffers
  \<^verbatim>\<open>_dd1\<close> and \<^verbatim>\<open>_dd2\<close> are members: addresses 1 and 2. The members that the constructor
  does not initialise are 0, the stores are blank.
\<close>

definition new_driver :: "int \<Rightarrow> driver" where
  "new_driver default_vsync_spacing =
     \<lparr>rotation = 0, refreshmode = 0, width = TFTWIDTH, height = TFTHEIGHT,
      late_start_ratio_override = True, vsync_spacing = default_vsync_spacing,
      diff1 = None, diff2 = None, dummydiff1 = 1, dummydiff2 = 2,
      fb1 = None, fb2 = None, mirrorfb = None, fb2full = False,
      period = 0, synced_em = 0, synced_scanline = 0,
      pcb = None, cur_fb = None, cur_diff = None, dma_state = DMA_IDLE,
      slinitpos = 0, em_async = 0, margin = 0, last_y = 0,
      prev_caset_x = 0, prev_paset_y = 0, touch_request_read = False,
      stats_nb_frame = 0, stats_nb_uploaded_pixels = 0, statsvar_margin = [], nbteared = 0,
      armed = None, panel_scanline = 0,
      fbmem = (\<lambda>a i. 0), diffmem = (\<lambda>a. \<lparr>script = [], cursor = 0\<rparr>), spi_out = []\<rparr>"

text \<open>A framebuffer whose pixel at offset \<open>i\<close> is \<open>i\<close> itself: the pushers then list the
  offsets they read.\<close>

definition index_fb :: "int \<Rightarrow> int" where
  "index_fb i = i"

text \<open>A driver whose scanline clock has been synchronised 4 ms ago at scanline 300, with a
  period of 16 ms, and whose panel answers 100 to the next query.\<close>

definition synced_driver :: driver where
  "synced_driver = (new_driver 2)\<lparr>panel_scanline := 100, period := 16000,
                                 synced_em := 4000, synced_scanline := 300\<rparr>"

text \<open>An idle driver in double buffering whose mirror is its framebuffer at address 10.\<close>

definition idle_mirrored :: driver where
  "idle_mirrored = (new_driver 2)\<lparr>fb1 := Some 10, mirrorfb := Some 10\<rparr>"

text \<open>
  A driver in double buffering (framebuffer 10, diff buffer 20) with vsync spacing -1,
  in the middle of an upload: the DMA transfer of a run is under way, the diff buffer has
  one more run to give. The same driver in triple buffering (second framebuffer 11,
  second diff buffer 21).
\<close>

definition busy_double :: driver where
  "busy_double =
     (new_driver (- 1))\<lparr>fb1 := Some 10, mirrorfb := Some 10, diff1 := Some 20,
                        dma_state := DMA_ON, armed := Some DmaInterruptDiff,
                        cur_fb := Some 10, cur_diff := Some 20,
                        diffmem := (\<lambda>a. \<lparr>script = [], cursor = 0\<rparr>)
                                   (20 := \<lparr>script = [(0, 0, 0, 240), (0, 0, 0, 240), (0, 0, 5, 240)],
                                           cursor = 2\<rparr>)\<rparr>"

definition busy_triple :: driver where
  "busy_triple = busy_double\<lparr>fb2 := Some 11, diff2 := Some 21\<rparr>"

text \<open>A call of \<^verbatim>\<open>update\<close> during which no interrupt fires, whose diff is one run of a row,
  and whose copy leaves the image as it is (rotation 0).\<close>

definition quiet :: env where
  "quiet = \<lparr>computed = [(0, 0, 7, 240), (0, 0, 7, 240)], rotated = (\<lambda>r f. f),
            irqs_before_check = 0, irqs_while_diffing = 0\<rparr>"

text \<open>
  A driver with vsync spacing 2 and a period of 16 ms in the middle of an upload that
  started at scanline 10 and has written down to row 50: \<open>racing\<close> looks at it 4 ms into
  the upload (80 scanlines), with one more run to read; \<open>overtaken\<close> 30 ms into the
  upload (600 scanlines), at the end of the diff.
\<close>

definition racing :: driver where
  "racing =
     (new_driver 2)\<lparr>fb1 := Some 10, mirrorfb := Some 10, diff1 := Some 20,
                     period := 16000, dma_state := DMA_ON, cur_fb := Some 10,
                     cur_diff := Some 20, slinitpos := 10, em_async := 4000, margin := 320,
                     last_y := 50, prev_paset_y := 49,
                     diffmem := (\<lambda>a. \<lparr>script = [], cursor = 0\<rparr>)
                                (20 := \<lparr>script = [(0, 0, 49, 240), (0, 0, 49, 240), (0, 0, 60, 240)],
                                        cursor = 2\<rparr>)\<rparr>"

definition overtaken :: driver where
  "overtaken =
     racing\<lparr>em_async := 30000,
            diffmem := (\<lambda>a. \<lparr>script = [], cursor = 0\<rparr>)
                       (20 := \<lparr>script = [(0, 0, 49, 240), (0, 0, 49, 240), (0, 0, 60, 240)],
                               cursor = 3\<rparr>)\<rparr>"

text \<open>The three pointers of the coordinator that the mirror invariants speak about.\<close>

definition bufs :: "driver \<Rightarrow> ptr \<times> ptr \<times> ptr" where
  "bufs s = (fb1 s, fb2 s, mirrorfb s)"

text \<open>The answer that the next \<^verbatim>\<open>readDiff\<close> on diff buffer \<open>d\<close> gives.\<close>

definition nextAnswer :: "nat \<Rightarrow> driver \<Rightarrow> answer" where
  "nextAnswer d s = fst (readDiff d (0, 0, 0) 0 s)"

text \<open>
  What a function that runs the callback through \<open>K\<close> can do to the three pointers:
  keep them, or, any number of times, hand a driver with the pointers reached so far to
  \<open>K\<close> and go on from what it returns.
\<close>

inductive via :: "(driver \<Rightarrow> driver option) \<Rightarrow> driver \<Rightarrow> driver \<Rightarrow> bool"
  for K :: "driver \<Rightarrow> driver option" where
  keep: "bufs s' = bufs s \<Longrightarrow> via K s s'"
| call: "via K s t \<Longrightarrow> K t = Some t' \<Longrightarrow> bufs s' = bufs t' \<Longrightarrow> via K s s'"

section \<open>Properties\<close>

subsection \<open>Arithmetic\<close>

lemma wrap32_id: "- 2147483648 \<le> v \<Longrightarrow> v < 2147483648 \<Longrightarrow> wrap32 v = v"
  by (simp add: wrap32_def)

lemma wrap32_add_wrap32: "wrap32 (a + wrap32 b) = wrap32 (a + b)"
proof -
  have "(a + ((b + 2147483648) mod 4294967296 - 2147483648) + 2147483648) mod 4294967296
      = (a + (b + 2147483648) mod 4294967296) mod 4294967296" by simp
  also have "\<dots> = (a + (b + 2147483648)) mod 4294967296" by (rule mod_add_right_eq)
  finally show ?thesis by (simp add: wrap32_def add.assoc)
qed

lemma tdiv_nonneg: "0 \<le> a \<Longrightarrow> 0 < b \<Longrightarrow> tdiv a b = a div b"
  by (cases "a = 0") (simp_all add: tdiv_def)

lemma tmod_nonneg: "0 \<le> a \<Longrightarrow> 0 < b \<Longrightarrow> tmod a b = a mod b"
  by (simp add: tmod_def tdiv_nonneg minus_mult_div_eq_mod)

subsection \<open>setScroll\<close>

text \<open>
  Every offset but the least \<^verbatim>\<open>int\<close> is normalised to its residue modulo 320: the
  multiple of 320 that is added may wrap, the sum does not.
\<close>

lemma setScroll_offset_neg:
  assumes "sint w < 0" "sint w \<noteq> - 2147483648"
  shows "setScroll_offset w = sint w mod 320"
proof -
  define v where "v = sint w"
  have lo: "- 2147483648 \<le> v" unfolding v_def using sint_ge [of w] by simp
  have v: "- 2147483648 < v" "v < 0" using assms lo by (simp_all add: v_def)
  define k where "k = (- v) div 320 + 1"
  have k1: "wrap32 (- v) = - v" using v by (simp add: wrap32_id)
  have k2: "tdiv (- v) TFTHEIGHT = (- v) div 320" using v by (simp add: tdiv_nonneg TFTHEIGHT_def)
  have kb: "0 < k" "k \<le> 6710887" unfolding k_def using v by linarith+
  have k3: "wrap32 k = k" using kb by (simp add: wrap32_id)
  have m: "(- v) mod 320 < 320" "0 \<le> (- v) mod 320" by simp_all
  have e: "k * 320 = - v - (- v) mod 320 + 320"
    unfolding k_def using mult_div_mod_eq [of 320 "- v"] by (simp add: algebra_simps)
  have r: "0 < v + k * 320" "v + k * 320 \<le> 320" using e m by linarith+
  have "wrap32 (v + wrap32 (k * 320)) = v + k * 320"
    using r by (simp add: wrap32_add_wrap32 wrap32_id)
  then have "setScroll_offset w = tmod (v + k * 320) 320"
    using v k1 k2 k3
    by (simp add: setScroll_offset_def Let_def v_def[symmetric] k_def[symmetric] TFTHEIGHT_def)
  also have "\<dots> = (v + k * 320) mod 320" using r by (simp add: tmod_nonneg)
  also have "\<dots> = v mod 320" by simp
  finally show ?thesis by (simp add: v_def)
qed

lemma setScroll_offset_ok:
  assumes "sint w \<noteq> - 2147483648"
  shows "setScroll_offset w = sint w mod 320"
proof (cases "sint w < 0")
  case True then show ?thesis using assms by (simp add: setScroll_offset_neg)
next
  case False then show ?thesis by (simp add: setScroll_offset_def tmod_nonneg)
qed





lemma waitUpdateAsyncComplete_with_idle:
  "dma_state s = DMA_IDLE \<Longrightarrow> waitUpdateAsyncComplete_with invoke n s = Some s"
  by (cases n) simp_all

lemma waitUpdateAsyncComplete_idle:
  "dma_state s = DMA_IDLE \<Longrightarrow> waitUpdateAsyncComplete n s = Some s"
  by (simp add: waitUpdateAsyncComplete_def waitUpdateAsyncComplete_with_idle)


subsection \<open>The pixel pushers\<close>

lemma nat_pred_Suc: "0 < len \<Longrightarrow> nat len = Suc (nat (len - 1))"
  by simp

lemma pushloop0_eq: "pushloop0 fb p len = map (\<lambda>k. fb (p + int k)) [0..<nat len]"
proof (induction fb p len rule: pushloop0.induct)
  case (1 fb p len)
  show ?case
  proof (cases "len > 0")
    case True
    have "pushloop0 fb p len = fb p # pushloop0 fb (p + 1) (len - 1)"
      using True by (subst pushloop0.simps) simp
    also have "\<dots> = fb p # map (\<lambda>k. fb (p + 1 + int k)) [0..<nat (len - 1)]"
      using 1 True by simp
    also have "\<dots> = map (\<lambda>k. fb (p + int k)) [0..<Suc (nat (len - 1))]"
      by (simp only: map_upt_Suc) (simp add: add.assoc)
    finally show ?thesis using True by (simp only: nat_pred_Suc)
  next
    case False
    then show ?thesis by (subst pushloop0.simps) simp
  qed
qed

lemma pushloop2_eq: "pushloop2 fb p len = map (\<lambda>k. fb (p - int k)) [0..<nat len]"
proof (induction fb p len rule: pushloop2.induct)
  case (1 fb p len)
  show ?case
  proof (cases "len > 0")
    case True
    have "pushloop2 fb p len = fb p # pushloop2 fb (p - 1) (len - 1)"
      using True by (subst pushloop2.simps) simp
    also have "\<dots> = fb p # map (\<lambda>k. fb (p - 1 - int k)) [0..<nat (len - 1)]"
      using 1 True by simp
    also have "\<dots> = map (\<lambda>k. fb (p - int k)) [0..<Suc (nat (len - 1))]"
      by (simp only: map_upt_Suc) (simp add: algebra_simps)
    finally show ?thesis using True by (simp only: nat_pred_Suc)
  next
    case False
    then show ?thesis by (subst pushloop2.simps) simp
  qed
qed

lemma col_wrap:
  "(239 + int (Suc k)) div 240 = 1 + int k div 240"
  "(239 + int (Suc k)) mod 240 = int k mod 240"
proof -
  have a: "239 + int (Suc k) = int k + 1 * 240" by simp
  show "(239 + int (Suc k)) div 240 = 1 + int k div 240"
    by (simp only: a div_mult_self1)
  show "(239 + int (Suc k)) mod 240 = int k mod 240"
    by (simp only: a mod_mult_self1)
qed

lemma col_next:
  "(y + int (Suc k)) div 240 = (y + 1 + int k) div 240"
  "(y + int (Suc k)) mod 240 = (y + 1 + int k) mod 240"
  by (simp_all add: add.assoc)

lemma col_wrap3:
  fixes x :: int
  shows "x - 1 - (0 + int k) div 240 + 320 * ((0 + int k) mod 240)
     = x - (239 + int (Suc k)) div 240 + 320 * ((239 + int (Suc k)) mod 240)"
  by (simp only: col_wrap) simp

lemma col_wrap1:
  fixes x :: int
  shows "x + 1 + (239 - 239 + int k) div 240 + 320 * (239 - (239 - 239 + int k) mod 240)
     = x + (239 - 0 + int (Suc k)) div 240 + 320 * (239 - (239 - 0 + int (Suc k)) mod 240)"
  by (simp only: diff_zero col_wrap) simp

lemma col_next1:
  fixes x y :: int
  shows "x + (239 - (y - 1) + int k) div 240 + 320 * (239 - (239 - (y - 1) + int k) mod 240)
     = x + (239 - y + int (Suc k)) div 240 + 320 * (239 - (239 - y + int (Suc k)) mod 240)"
proof -
  have "239 - (y - 1) + int k = 239 - y + int (Suc k)" by simp
  then show ?thesis by (simp only:)
qed

lemma pushloop3_eq:
  "0 \<le> y \<Longrightarrow> y < 240 \<Longrightarrow>
   pushloop3 fb x y len
     = map (\<lambda>k. fb (x - (y + int k) div 240 + 320 * ((y + int k) mod 240))) [0..<nat len]"
proof (induction fb x y len rule: pushloop3.induct)
  case (1 fb x y len)
  show ?case
  proof (cases "len > 0")
    case False
    then show ?thesis by (subst pushloop3.simps) simp
  next
    case True
    let ?f = "\<lambda>x y k. fb (x - (y + int k) div 240 + 320 * ((y + int k) mod 240))"
    have hd: "fb (x + TFTHEIGHT * y) = ?f x y 0" using "1.prems" by (simp add: TFTHEIGHT_def)
    show ?thesis
    proof (cases "y = 239")
      case True
      have "pushloop3 fb x y len = fb (x + TFTHEIGHT * y) # pushloop3 fb (x - 1) 0 (len - 1)"
        using \<open>len > 0\<close> True by (subst pushloop3.simps) (simp add: TFTWIDTH_def)
      also have "pushloop3 fb (x - 1) 0 (len - 1) = map (?f (x - 1) 0) [0..<nat (len - 1)]"
        using "1.IH"(1) [of "y + 1"] \<open>len > 0\<close> True by (simp add: TFTWIDTH_def)
      also have "map (?f (x - 1) 0) [0..<nat (len - 1)] = map (\<lambda>k. ?f x y (Suc k)) [0..<nat (len - 1)]"
        unfolding True by (simp only: col_wrap3)
      finally have "pushloop3 fb x y len = map (?f x y) [0..<Suc (nat (len - 1))]"
        by (simp only: map_upt_Suc hd)
      then show ?thesis using \<open>len > 0\<close> by (simp only: nat_pred_Suc)
    next
      case False
      then have y1: "0 \<le> y + 1" "y + 1 < 240" using "1.prems" by simp_all
      have "pushloop3 fb x y len = fb (x + TFTHEIGHT * y) # pushloop3 fb x (y + 1) (len - 1)"
        using \<open>len > 0\<close> y1 by (subst pushloop3.simps) (simp add: TFTWIDTH_def)
      also have "pushloop3 fb x (y + 1) (len - 1) = map (?f x (y + 1)) [0..<nat (len - 1)]"
        using "1.IH"(2) [of "y + 1"] \<open>len > 0\<close> y1 by (simp add: TFTWIDTH_def)
      also have "map (?f x (y + 1)) [0..<nat (len - 1)] = map (\<lambda>k. ?f x y (Suc k)) [0..<nat (len - 1)]"
        by (simp only: col_next)
      finally have "pushloop3 fb x y len = map (?f x y) [0..<Suc (nat (len - 1))]"
        by (simp only: map_upt_Suc hd)
      then show ?thesis using \<open>len > 0\<close> by (simp only: nat_pred_Suc)
    qed
  qed
qed


lemma pushloop1_eq:
  "0 \<le> y \<Longrightarrow> y < 240 \<Longrightarrow>
   pushloop1 fb x y len
     = map (\<lambda>k. fb (x + (239 - y + int k) div 240 + 320 * (239 - (239 - y + int k) mod 240)))
         [0..<nat len]"
proof (induction fb x y len rule: pushloop1.induct)
  case (1 fb x y len)
  show ?case
  proof (cases "len > 0")
    case False
    then show ?thesis by (subst pushloop1.simps) simp
  next
    case True
    let ?f = "\<lambda>x y k. fb (x + (239 - y + int k) div 240 + 320 * (239 - (239 - y + int k) mod 240))"
    have hd: "fb (x + TFTHEIGHT * y) = ?f x y 0" using "1.prems" by (simp add: TFTHEIGHT_def)
    show ?thesis
    proof (cases "y = 0")
      case True
      have "pushloop1 fb x y len = fb (x + TFTHEIGHT * y) # pushloop1 fb (x + 1) 239 (len - 1)"
        using \<open>len > 0\<close> True by (subst pushloop1.simps) (simp add: TFTWIDTH_def)
      also have "pushloop1 fb (x + 1) 239 (len - 1) = map (?f (x + 1) 239) [0..<nat (len - 1)]"
        using "1.IH"(1) [of "y - 1"] \<open>len > 0\<close> True by (simp add: TFTWIDTH_def)
      also have "map (?f (x + 1) 239) [0..<nat (len - 1)] = map (\<lambda>k. ?f x y (Suc k)) [0..<nat (len - 1)]"
        unfolding True by (simp only: col_wrap1)
      finally have "pushloop1 fb x y len = map (?f x y) [0..<Suc (nat (len - 1))]"
        by (simp only: map_upt_Suc hd)
      then show ?thesis using \<open>len > 0\<close> by (simp only: nat_pred_Suc)
    next
      case False
      then have y1: "0 \<le> y - 1" "y - 1 < 240" using "1.prems" by simp_all
      have "pushloop1 fb x y len = fb (x + TFTHEIGHT * y) # pushloop1 fb x (y - 1) (len - 1)"
        using \<open>len > 0\<close> y1 by (subst pushloop1.simps) (simp add: TFTWIDTH_def)
      also have "pushloop1 fb x (y - 1) (len - 1) = map (?f x (y - 1)) [0..<nat (len - 1)]"
        using "1.IH"(2) [of "y - 1"] \<open>len > 0\<close> y1 by (simp add: TFTWIDTH_def)
      also have "map (?f x (y - 1)) [0..<nat (len - 1)] = map (\<lambda>k. ?f x y (Suc k)) [0..<nat (len - 1)]"
        by (simp only: col_next1)
      finally have "pushloop1 fb x y len = map (?f x y) [0..<Suc (nat (len - 1))]"
        by (simp only: map_upt_Suc hd)
      then show ?thesis using \<open>len > 0\<close> by (simp only: nat_pred_Suc)
    qed
  qed
qed

text \<open>
  C4, as the code has it. Rotation 0 emits \<open>len\<close> consecutive words forward from index
  \<open>x + 240 * y\<close>; rotation 2 emits \<open>len\<close> consecutive words backward from index
  \<open>(239 - x) + 240 * (319 - y)\<close>; rotations 1 and 3 (for \<open>0 \<le> x < 240\<close>) walk the framebuffer
  by strides of 320 words, the length of a row of the landscape image, 240 pixels to
  a column: the \<open>k\<close>-th word is read at \<open>y + (x + k) div 240 + 320 * (239 - (x + k) mod 240)\<close>
  by rotation 1 and at \<open>319 - y - (x + k) div 240 + 320 * ((x + k) mod 240)\<close> by rotation 3.
\<close>

theorem pushpixels_traversal:
  "pushpixels_mode0 fb x y len = map (\<lambda>k. fb (x + 240 * y + int k)) [0..<nat len]
   \<and> pushpixels_mode2 fb x y len
       = map (\<lambda>k. fb ((239 - x) + 240 * (319 - y) - int k)) [0..<nat len]
   \<and> (0 \<le> x \<and> x < 240 \<longrightarrow>
        pushpixels_mode1 fb x y len
          = map (\<lambda>k. fb (y + (x + int k) div 240 + 320 * (239 - (x + int k) mod 240)))
              [0..<nat len]
      \<and> pushpixels_mode3 fb x y len
          = map (\<lambda>k. fb (319 - y - (x + int k) div 240 + 320 * ((x + int k) mod 240)))
              [0..<nat len])"
proof (intro conjI impI)
  show "pushpixels_mode0 fb x y len = map (\<lambda>k. fb (x + 240 * y + int k)) [0..<nat len]"
    by (simp add: pushpixels_mode0_def pushloop0_eq TFTWIDTH_def mult.commute)
  show "pushpixels_mode2 fb x y len
          = map (\<lambda>k. fb ((239 - x) + 240 * (319 - y) - int k)) [0..<nat len]"
    by (simp add: pushpixels_mode2_def pushloop2_eq TFTWIDTH_def TFTHEIGHT_def mult.commute)
next
  assume x: "0 \<le> x \<and> x < 240"
  then have a: "0 \<le> 239 - x" "239 - x < 240" by simp_all
  have b: "239 - (239 - x) = x" by simp
  show "pushpixels_mode1 fb x y len
          = map (\<lambda>k. fb (y + (x + int k) div 240 + 320 * (239 - (x + int k) mod 240)))
              [0..<nat len]"
    unfolding pushpixels_mode1_def TFTWIDTH_def
    using pushloop1_eq [OF a, of fb y len] by (simp only: b) simp
  show "pushpixels_mode3 fb x y len
          = map (\<lambda>k. fb (319 - y - (x + int k) div 240 + 320 * ((x + int k) mod 240)))
              [0..<nat len]"
    unfolding pushpixels_mode3_def TFTHEIGHT_def
    using x pushloop3_eq [of x fb "320 - 1 - y" len] by simp
qed

text \<open>The four pushers on three pixels each; the last two cross the end of a column.\<close>

theorem pushpixels_traversal_witness:
  "pushpixels_mode0 index_fb 5 2 3 = [485, 486, 487]
   \<and> pushpixels_mode2 index_fb 5 2 3 = [76314, 76313, 76312]
   \<and> pushpixels_mode1 index_fb 238 7 3 = [327, 7, 76488]
   \<and> pushpixels_mode3 index_fb 238 7 3 = [76472, 76792, 311]"
  using pushpixels_traversal [of index_fb 5 2 3] pushpixels_traversal [of index_fb 238 7 3]
  by (simp add: index_fb_def upt_rec)

text \<open>
  C4, as the claim states it, fails: two pixels pushed one after the other by rotation 1
  or by rotation 3 lie 320 words apart in the framebuffer, not 240.
\<close>

theorem pushpixels_stride_counterexample:
  "pushpixels_mode1 index_fb 0 0 2 = [76480, 76160]
   \<and> pushpixels_mode3 index_fb 0 0 2 = [319, 639]
   \<and> \<bar>pushpixels_mode1 index_fb 0 0 2 ! 1 - pushpixels_mode1 index_fb 0 0 2 ! 0\<bar> \<noteq> 240
   \<and> \<bar>pushpixels_mode3 index_fb 0 0 2 ! 1 - pushpixels_mode3 index_fb 0 0 2 ! 0\<bar> \<noteq> 240"
  by (simp add: pushpixels_mode1_def pushpixels_mode3_def pushloop1.simps pushloop3.simps
      index_fb_def TFTWIDTH_def TFTHEIGHT_def)

subsection \<open>The scanline clock\<close>

lemma predict_word:
  fixes sl em p :: "32 word"
  assumes "p \<noteq> 0"
  shows "sint (ucast (((ucast sl :: 64 word) + (ucast em * 320) div ucast p) mod 320) :: 32 word)
         = (uint sl + uint em * 320 div uint p) mod 320"
proof -
  have sl: "uint sl < 4294967296" using uint_lt2p [of sl] by simp
  have em: "uint em < 4294967296" using uint_lt2p [of em] by simp
  have p: "0 < uint p" using assms by (simp add: word_neq_0_conv word_less_def)
  have sl0: "0 \<le> uint sl" and em0: "0 \<le> uint em" by simp_all
  have u1: "uint (ucast em * 320 :: 64 word) = uint em * 320"
  proof -
    have "uint (ucast em * 320 :: 64 word) = (uint em * 320) mod 2 ^ 64"
      by (simp add: uint_word_ariths uint_up_ucast is_up)
    also have "\<dots> = uint em * 320" using em em0 by (intro mod_pos_pos_trivial) simp_all
    finally show ?thesis .
  qed
  have q: "uint em * 320 div uint p \<le> uint em * 320"
    using zdiv_mono2 [of "uint em * 320" 1 "uint p"] p em0 by simp
  have q0: "0 \<le> uint em * 320 div uint p" using p em0 by (simp add: pos_imp_zdiv_nonneg_iff)
  have u2: "uint ((ucast em * 320 :: 64 word) div ucast p) = uint em * 320 div uint p"
    by (simp add: uint_div u1 uint_up_ucast is_up)
  have u3: "uint ((ucast sl :: 64 word) + (ucast em * 320) div ucast p)
            = uint sl + uint em * 320 div uint p"
  proof -
    have "uint ((ucast sl :: 64 word) + (ucast em * 320) div ucast p)
          = (uint sl + uint em * 320 div uint p) mod 2 ^ 64"
      by (simp add: uint_word_ariths u2 uint_up_ucast is_up)
    also have "\<dots> = uint sl + uint em * 320 div uint p"
      using sl sl0 q q0 em by (intro mod_pos_pos_trivial) simp_all
    finally show ?thesis .
  qed
  let ?w = "((ucast sl :: 64 word) + (ucast em * 320) div ucast p) mod 320"
  let ?v = "(uint sl + uint em * 320 div uint p) mod 320"
  have u4: "uint ?w = ?v" by (simp add: uint_mod u3)
  have v: "0 \<le> ?v" "?v < 320" by simp_all
  have "uint (ucast ?w :: 32 word) = take_bit 32 (uint ?w)"
    by (simp add: unsigned_ucast_eq)
  also have "\<dots> = ?v mod 2 ^ 32" by (simp only: u4 take_bit_eq_mod)
  also have "\<dots> = ?v" using v by (intro mod_pos_pos_trivial) simp_all
  finally have u5: "uint (ucast ?w :: 32 word) = ?v" .
  have "sint (ucast ?w :: 32 word) = signed_take_bit 31 ?v"
    by (simp only: sint_uint u5) simp
  also have "\<dots> = ?v" using v by (intro signed_take_bit_int_eq_self) simp_all
  finally show ?thesis .
qed

lemma remap_small:
  fixes raw :: "32 word"
  assumes "uint raw \<le> 161"
  shows "(let sc = wrap32 (wrap32 (2 * sint raw) - 3) in if sc < 0 then 0 else sc)
         = max 0 (2 * uint raw - 3)"
proof -
  have "sint raw = signed_take_bit 31 (uint raw)" by (simp add: sint_uint)
  also have "\<dots> = uint raw"
  proof (rule signed_take_bit_int_eq_self)
    show "- (2 ^ 31) \<le> uint raw"
      using order_trans [of "- (2 ^ 31)" 0 "uint raw"] by simp
    show "uint raw < 2 ^ 31" using assms by simp
  qed
  finally have s: "sint raw = uint raw" .
  have b: "0 \<le> uint raw" by simp
  have w1: "wrap32 (2 * uint raw) = 2 * uint raw" using assms b by (intro wrap32_id) linarith+
  have w2: "wrap32 (2 * uint raw - 3) = 2 * uint raw - 3" using assms b by (intro wrap32_id) linarith+
  show ?thesis by (simp add: s w1 w2 Let_def max_def)
qed

text \<open>
  C6. For a raw answer \<open>v\<close> of the panel in [0,161], \<^verbatim>\<open>_getScanLine(true)\<close> stores and
  returns \<open>max 0 (2 * v - 3)\<close> (and restarts the stopwatch); with a period \<open>P > 0\<close>,
  \<^verbatim>\<open>_getScanLine(false)\<close> returns \<open>(synced_scanline + synced_em * 320 div P) mod 320\<close> in exact
  integer arithmetic, and leaves the driver as it is.
\<close>

theorem getScanLine_values:
  "(uint (panel_scanline s) \<le> 161 \<longrightarrow>
      getScanLine True s
        = Some (max 0 (2 * uint (panel_scanline s) - 3),
                s\<lparr>synced_em := 0,
                  synced_scanline := word_of_int (max 0 (2 * uint (panel_scanline s) - 3))\<rparr>))
   \<and> (period s \<noteq> 0 \<longrightarrow>
        getScanLine False s
          = Some ((uint (synced_scanline s) + uint (synced_em s) * 320 div uint (period s)) mod 320,
                  s))"
proof (intro conjI impI)
  assume a: "uint (panel_scanline s) \<le> 161"
  show "getScanLine True s
        = Some (max 0 (2 * uint (panel_scanline s) - 3),
                s\<lparr>synced_em := 0,
                  synced_scanline := word_of_int (max 0 (2 * uint (panel_scanline s) - 3))\<rparr>)"
    using remap_small [OF a] by (simp add: getScanLine_def Let_def)
next
  assume "period s \<noteq> 0"
  then show "getScanLine False s
          = Some ((uint (synced_scanline s) + uint (synced_em s) * 320 div uint (period s)) mod 320,
                  s)"
    by (simp add: getScanLine_def predict_word)
qed

text \<open>The panel answers 100: scanline 197. Four of sixteen milliseconds after scanline 300:
  scanline 60.\<close>

theorem getScanLine_values_witness:
  "getScanLine True synced_driver
     = Some (197, synced_driver\<lparr>synced_em := 0, synced_scanline := 197\<rparr>)
   \<and> getScanLine False synced_driver = Some (60, synced_driver)"
  using getScanLine_values [of synced_driver]
  by (simp add: synced_driver_def new_driver_def)

subsection \<open>Panel settings and dropped frames\<close>

lemma sampleRefreshRate_Some:
  "\<exists>s'. sampleRefreshRate (Some h) s = Some s' \<and> spi_out s' = spi_out s \<and> mirrorfb s' = mirrorfb s"
  by (cases h) (simp add: sampleRefreshRate_def getScanLine_def Let_def)

lemma setRefreshMode_valid:
  assumes "0 \<le> mode" "mode \<le> 31"
    and "waitUpdateAsyncComplete n (s\<lparr>refreshmode := mode\<rparr>) = Some s1"
  shows "\<exists>s'. setRefreshMode n (Some h) mode s = Some s'
            \<and> spi_out s' = spi_out s1 @ [Cmd FRMCTR1, data8 (if mode \<ge> 16 then 1 else 0),
                                       data8 (0x10 + (if mode \<ge> 16 then mode - 16 else mode))]
            \<and> mirrorfb s' = mirrorfb s1"
proof -
  let ?w = "writes [Cmd FRMCTR1, data8 (if mode \<ge> 16 then 1 else 0),
                    data8 (0x10 + (if mode \<ge> 16 then mode - 16 else mode))] s1"
  obtain s2 where s2: "sampleRefreshRate (Some h) ?w = Some s2" "spi_out s2 = spi_out ?w"
    "mirrorfb s2 = mirrorfb ?w"
    using sampleRefreshRate_Some [of h ?w] by blast
  have "setRefreshMode n (Some h) mode s = Some (resync (statsReset s2))"
    using assms s2(1) by (cases "16 \<le> mode") (simp_all add: setRefreshMode_def Let_def)
  then show ?thesis using s2
    by (simp add: resync_def statsReset_def writes_def)
qed

text \<open>
  C8. A mode outside [0,31] leaves the driver as it is: the refresh mode is kept and
  nothing is written. For a mode in [16,31] the call writes to FRMCTR1 the prescaler
  byte 1 and the value \<open>0x10 + (mode - 16)\<close>, for a mode in [0,15] the prescaler byte 0
  and \<open>0x10 + mode\<close>: these three frames follow whatever the upload in flight has
  written while the call waited for it (\<open>s1\<close> is the driver when the wait ends, \<open>h\<close>
  what the sampling of the refresh rate measures).
\<close>

theorem setRefreshMode_frmctr1:
  "(mode < 0 \<or> mode > 31 \<longrightarrow> setRefreshMode n hw mode s = Some s)
   \<and> (16 \<le> mode \<and> mode \<le> 31
        \<and> waitUpdateAsyncComplete n (s\<lparr>refreshmode := mode\<rparr>) = Some s1 \<and> hw = Some h \<longrightarrow>
        (\<exists>s'. setRefreshMode n hw mode s = Some s'
             \<and> spi_out s' = spi_out s1 @ [Cmd FRMCTR1, Data8 1, Data8 (word_of_int (0x10 + (mode - 16)))]))
   \<and> (0 \<le> mode \<and> mode \<le> 15
        \<and> waitUpdateAsyncComplete n (s\<lparr>refreshmode := mode\<rparr>) = Some s1 \<and> hw = Some h \<longrightarrow>
        (\<exists>s'. setRefreshMode n hw mode s = Some s'
             \<and> spi_out s' = spi_out s1 @ [Cmd FRMCTR1, Data8 0, Data8 (word_of_int (0x10 + mode))]))"
proof (intro conjI impI)
  assume "mode < 0 \<or> mode > 31"
  then show "setRefreshMode n hw mode s = Some s" by (auto simp: setRefreshMode_def)
next
  assume a: "16 \<le> mode \<and> mode \<le> 31
        \<and> waitUpdateAsyncComplete n (s\<lparr>refreshmode := mode\<rparr>) = Some s1 \<and> hw = Some h"
  then have "0 \<le> mode" by simp
  with a show "\<exists>s'. setRefreshMode n hw mode s = Some s'
             \<and> spi_out s' = spi_out s1 @ [Cmd FRMCTR1, Data8 1, Data8 (word_of_int (0x10 + (mode - 16)))]"
    using setRefreshMode_valid [of mode n s s1 h] by (auto simp: data8_def)
next
  assume a: "0 \<le> mode \<and> mode \<le> 15
        \<and> waitUpdateAsyncComplete n (s\<lparr>refreshmode := mode\<rparr>) = Some s1 \<and> hw = Some h"
  then have "mode \<le> 31" by simp
  with a show "\<exists>s'. setRefreshMode n hw mode s = Some s'
             \<and> spi_out s' = spi_out s1 @ [Cmd FRMCTR1, Data8 0, Data8 (word_of_int (0x10 + mode))]"
    using setRefreshMode_valid [of mode n s s1 h] by (auto simp: data8_def)
qed

lemma idle_mirrored_idle: "dma_state (idle_mirrored\<lparr>refreshmode := m\<rparr>) = DMA_IDLE"
  by (simp add: idle_mirrored_def new_driver_def)

text \<open>Modes 32, 20 and 5 on an idle driver that has written nothing yet.\<close>

theorem setRefreshMode_frmctr1_witness:
  "setRefreshMode 0 (Some (5, 100000)) 32 idle_mirrored = Some idle_mirrored
   \<and> map_option spi_out (setRefreshMode 0 (Some (5, 100000)) 20 idle_mirrored)
       = Some [Cmd FRMCTR1, Data8 1, Data8 20]
   \<and> map_option spi_out (setRefreshMode 0 (Some (5, 100000)) 5 idle_mirrored)
       = Some [Cmd FRMCTR1, Data8 0, Data8 21]"
proof -
  have w: "waitUpdateAsyncComplete 0 (idle_mirrored\<lparr>refreshmode := m\<rparr>)
           = Some (idle_mirrored\<lparr>refreshmode := m\<rparr>)" for m
    by (rule waitUpdateAsyncComplete_idle) (rule idle_mirrored_idle)
  have e: "spi_out (idle_mirrored\<lparr>refreshmode := m\<rparr>) = []" for m
    by (simp add: idle_mirrored_def new_driver_def)
  show ?thesis
    using setRefreshMode_frmctr1 [of 32 0 "Some (5, 100000)" idle_mirrored]
      setRefreshMode_frmctr1 [of 20 0 "Some (5, 100000)" idle_mirrored
        "idle_mirrored\<lparr>refreshmode := 20\<rparr>" "(5, 100000)"]
      setRefreshMode_frmctr1 [of 5 0 "Some (5, 100000)" idle_mirrored
        "idle_mirrored\<lparr>refreshmode := 5\<rparr>" "(5, 100000)"]
    by (auto simp: w e)
qed

text \<open>
  C1, as the code has it. \<^verbatim>\<open>setRotation\<close> with a rotation that, clipped to [0,3], is not
  the current one returns with the mirror NULL. \<^verbatim>\<open>setRefreshMode\<close> does not write the
  mirror: after a call with a valid mode the mirror is what it was when the wait for
  the upload in flight ended, and on an idle driver what it was before the call.
\<close>

theorem mirror_after_settings:
  "(clip (unat m) 0 3 \<noteq> rotation s \<and> waitUpdateAsyncComplete n s = Some s1 \<longrightarrow>
      (\<exists>s'. setRotation n m s = Some s' \<and> mirrorfb s' = None))
   \<and> (0 \<le> mode \<and> mode \<le> 31
        \<and> waitUpdateAsyncComplete n (s\<lparr>refreshmode := mode\<rparr>) = Some s1 \<and> hw = Some h \<longrightarrow>
        (\<exists>s'. setRefreshMode n hw mode s = Some s' \<and> mirrorfb s' = mirrorfb s1))
   \<and> (0 \<le> mode \<and> mode \<le> 31 \<and> dma_state s = DMA_IDLE \<and> hw = Some h \<longrightarrow>
        (\<exists>s'. setRefreshMode n hw mode s = Some s' \<and> mirrorfb s' = mirrorfb s))"
proof (intro conjI impI)
  assume "clip (unat m) 0 3 \<noteq> rotation s \<and> waitUpdateAsyncComplete n s = Some s1"
  then show "\<exists>s'. setRotation n m s = Some s' \<and> mirrorfb s' = None"
    by (simp add: setRotation_def Let_def resync_def statsReset_def)
next
  assume "0 \<le> mode \<and> mode \<le> 31
        \<and> waitUpdateAsyncComplete n (s\<lparr>refreshmode := mode\<rparr>) = Some s1 \<and> hw = Some h"
  then show "\<exists>s'. setRefreshMode n hw mode s = Some s' \<and> mirrorfb s' = mirrorfb s1"
    using setRefreshMode_valid [of mode n s s1 h] by auto
next
  assume a: "0 \<le> mode \<and> mode \<le> 31 \<and> dma_state s = DMA_IDLE \<and> hw = Some h"
  then have "waitUpdateAsyncComplete n (s\<lparr>refreshmode := mode\<rparr>) = Some (s\<lparr>refreshmode := mode\<rparr>)"
    by (intro waitUpdateAsyncComplete_idle) simp
  then show "\<exists>s'. setRefreshMode n hw mode s = Some s' \<and> mirrorfb s' = mirrorfb s"
    using a setRefreshMode_valid [of mode n s "s\<lparr>refreshmode := mode\<rparr>" h] by auto
qed

text \<open>An idle driver with a mirror: a new rotation clears it, a new refresh mode keeps it.\<close>

theorem mirror_after_settings_witness:
  "map_option mirrorfb (setRotation 0 1 idle_mirrored) = Some None
   \<and> map_option mirrorfb (setRefreshMode 0 (Some (5, 100000)) 20 idle_mirrored) = Some (Some 10)"
proof -
  have w: "waitUpdateAsyncComplete 0 (idle_mirrored\<lparr>refreshmode := m\<rparr>)
           = Some (idle_mirrored\<lparr>refreshmode := m\<rparr>)" for m
    by (rule waitUpdateAsyncComplete_idle) (rule idle_mirrored_idle)
  have w0: "waitUpdateAsyncComplete 0 idle_mirrored = Some idle_mirrored"
    by (rule waitUpdateAsyncComplete_idle) (simp add: idle_mirrored_def new_driver_def)
  have r: "clip (unat (1 :: 8 word)) 0 3 \<noteq> rotation idle_mirrored"
    by (simp add: clip_def idle_mirrored_def new_driver_def)
  have d: "dma_state idle_mirrored = DMA_IDLE" "mirrorfb idle_mirrored = Some 10"
    by (simp_all add: idle_mirrored_def new_driver_def)
  note t = mirror_after_settings [of 1 idle_mirrored 0 idle_mirrored 20 "Some (5, 100000)"
      "(5, 100000)"]
  have A: "\<exists>s'. setRotation 0 1 idle_mirrored = Some s' \<and> mirrorfb s' = None"
    using t r w0 by blast
  have B: "\<exists>s'. setRefreshMode 0 (Some (5, 100000)) 20 idle_mirrored = Some s'
             \<and> mirrorfb s' = mirrorfb idle_mirrored"
    using t d(1) by simp
  show ?thesis using A B d(2) by auto
qed

text \<open>
  C1, as the claim states it, fails: a driver with a mirror still has it after
  \<^verbatim>\<open>setRefreshMode(5)\<close>.
\<close>

theorem setRefreshMode_keeps_mirror_counterexample:
  "mirrorfb idle_mirrored = Some 10
   \<and> map_option mirrorfb (setRefreshMode 0 (Some (5, 100000)) 5 idle_mirrored) = Some (Some 10)"
proof -
  have w: "waitUpdateAsyncComplete 0 (idle_mirrored\<lparr>refreshmode := 5\<rparr>)
           = Some (idle_mirrored\<lparr>refreshmode := 5\<rparr>)"
    by (rule waitUpdateAsyncComplete_idle) (rule idle_mirrored_idle)
  have m: "mirrorfb idle_mirrored = Some 10"
    by (simp add: idle_mirrored_def new_driver_def)
  show ?thesis
    using setRefreshMode_valid [OF _ _ w, of "(5, 100000)"] m by auto
qed

text \<open>
  C3, as the code has it. In double buffering, a call of \<^verbatim>\<open>update\<close> with vsync spacing -1
  while an upload is in flight returns with the driver state unchanged: no diff buffer
  and no framebuffer is written, the mirror, \<^verbatim>\<open>_fb2full\<close> and the pending callback are
  what they were, nothing is launched and nothing is sent.
\<close>

theorem update_drops_frame:
  "bufferingMode s = DOUBLE_BUFFERING \<and> vsync_spacing s = - 1 \<and> asyncUpdateActive s \<longrightarrow>
     update n ev fb force_full_redraw s = Some s"
  by (simp add: update_def updateDoubleBuffering_def)

text \<open>A busy driver in double buffering drops the frame.\<close>

theorem update_drops_frame_witness:
  "bufferingMode busy_double = DOUBLE_BUFFERING \<and> vsync_spacing busy_double = - 1
   \<and> asyncUpdateActive busy_double
   \<and> update 1 quiet (Some 12) False busy_double = Some busy_double"
proof -
  have a: "bufferingMode busy_double = DOUBLE_BUFFERING \<and> vsync_spacing busy_double = - 1
     \<and> asyncUpdateActive busy_double"
    by (simp add: bufferingMode_def asyncUpdateActive_def busy_double_def new_driver_def)
  then show ?thesis using update_drops_frame [of busy_double 1 quiet "Some 12" False] by simp
qed

text \<open>
  C3, as the claim states it, fails in triple buffering: with vsync spacing -1 and an
  upload in flight, \<^verbatim>\<open>update\<close> stages the frame in the second framebuffer. It returns
  with the callback set, \<^verbatim>\<open>_fb2full\<close> true and the mirror moved to \<^verbatim>\<open>_fb2\<close>.
\<close>

theorem update_triple_stages_counterexample:
  "bufferingMode busy_triple = TRIPLE_BUFFERING \<and> vsync_spacing busy_triple = - 1
   \<and> asyncUpdateActive busy_triple
   \<and> pcb busy_triple = None \<and> \<not> fb2full busy_triple \<and> mirrorfb busy_triple = Some 10
   \<and> map_option pcb (update 1 quiet (Some 12) False busy_triple) = Some (Some Buffer2fullCB)
   \<and> map_option fb2full (update 1 quiet (Some 12) False busy_triple) = Some True
   \<and> map_option mirrorfb (update 1 quiet (Some 12) False busy_triple) = Some (Some 11)"
  by (simp add: update_def updateTripleBuffering_def stageOrLaunch_def bufferingMode_def
      asyncUpdateActive_def busy_triple_def busy_double_def new_driver_def quiet_def setCB_def
      computeDiff_def copyfb_def Let_def)

subsection \<open>Margin and teared frames\<close>

lemma invoke_pcb_None: "pcb s = None \<Longrightarrow> invoke_pcb n s = Some s"
  by (cases n) simp_all

lemma checkMargin_eq:
  assumes "vsync_spacing s > 0" "period s \<noteq> 0"
  shows "checkMargin s
         = Some (s\<lparr>margin := min (margin s)
                     (last_y s + 320 - slinitpos s - uint (em_async s) * 320 div uint (period s))\<rparr>)"
  using assms
  by (simp add: checkMargin_def nbScanlineDuring_def NB_SCANLINES_def TFTHEIGHT_def Let_def
      min_def)

lemma endframe_nbteared:
  "vsync_spacing s > 0 \<Longrightarrow>
   nbteared (endframe s) = (if margin s < 0 then nbteared s + 1 else nbteared s)"
  by (simp add: endframe_def Let_def)

lemma subFrameInterruptDiff_run:
  assumes v: "vsync_spacing s > 0" "period s \<noteq> 0"
    and d: "cur_diff s = Some d" "cursor (diffmem s d) < length (script (diffmem s d))"
      "fst (script (diffmem s d) ! cursor (diffmem s d)) \<ge> 0"
    and f: "cur_fb s = Some f"
  shows "map_option margin (subFrameInterruptDiff n s)
         = Some (min (margin s)
                   (last_y s + 320 - slinitpos s - uint (em_async s) * 320 div uint (period s)))"
proof -
  obtain r x y len where a: "script (diffmem s d) ! cursor (diffmem s d) = (r, x, y, len)"
    by (cases "script (diffmem s d) ! cursor (diffmem s d)") auto
  with d have r: "r \<ge> 0" by simp
  show ?thesis
    using v d f a r
    by (simp add: subFrameInterruptDiff_def subFrameInterruptDiff_with_def checkMargin_eq
        instantScanline_def nbScanlineDuring_def readDiff_def Let_def writes_def
        split: if_splits)
qed

lemma subFrameInterruptDiff_end:
  assumes v: "vsync_spacing s > 0" "period s \<noteq> 0"
    and d: "cur_diff s = Some d"
      "length (script (diffmem s d)) \<le> cursor (diffmem s d)
       \<or> fst (script (diffmem s d) ! cursor (diffmem s d)) < 0"
    and p: "pcb s = None"
  shows "map_option nbteared (subFrameInterruptDiff n s)
         = Some (if min (margin s)
                      (last_y s + 320 - slinitpos s - uint (em_async s) * 320 div uint (period s)) < 0
                 then nbteared s + 1 else nbteared s)"
proof -
  let ?m = "min (margin s)
              (last_y s + 320 - slinitpos s - uint (em_async s) * 320 div uint (period s))"
  let ?s1 = "s\<lparr>margin := ?m\<rparr>"
  obtain asl where asl: "instantScanline ?s1 = Some asl"
    using v by (simp add: instantScanline_def nbScanlineDuring_def)
  obtain a s2 where rd: "readDiff d (0, 0, 0) asl ?s1 = (a, s2)"
    by (cases "readDiff d (0, 0, 0) asl ?s1") auto
  have r: "fst a < 0" using d(2) rd
    by (auto simp: readDiff_def Let_def split: if_splits)
  have s2: "vsync_spacing s2 = vsync_spacing s" "margin s2 = ?m" "nbteared s2 = nbteared s"
    "pcb s2 = None"
    using rd p by (auto simp: readDiff_def Let_def split: if_splits)
  have e: "pcb ((endframe s2)\<lparr>touch_request_read := False, dma_state := DMA_IDLE\<rparr>) = None"
    using s2 by (simp add: endframe_def Let_def)
  have f: "finishFrame (invoke_pcb n) s2
           = Some ((endframe s2)\<lparr>touch_request_read := False, dma_state := DMA_IDLE, pcb := None\<rparr>)"
    by (simp add: finishFrame_def Let_def invoke_pcb_None [OF e])
  have "subFrameInterruptDiff n s = finishFrame (invoke_pcb n) s2"
    using v d(1) asl rd r
    by (cases a) (simp add: subFrameInterruptDiff_def subFrameInterruptDiff_with_def
        checkMargin_eq)
  then show ?thesis
    using f s2 v by (simp add: endframe_nbteared)
qed

text \<open>
  C7. With vsync (a positive spacing, a measured period), the completion interrupt of a
  run first brings the margin to \<open>min margin (last_y + 320 - slinitpos - em_async * 320 div P)\<close>,
  and that is the margin of the driver when the interrupt has read a further run or a
  hold; \<^verbatim>\<open>_endframe\<close> increments the counter of teared frames exactly when the margin is
  negative, and so does the interrupt that finds the diff at its end, on the margin it
  has just brought up to date (no completion callback pending).
\<close>

theorem margin_and_teared_frames:
  "(vsync_spacing s > 0 \<and> period s \<noteq> 0 \<longrightarrow>
      checkMargin s
        = Some (s\<lparr>margin := min (margin s)
                    (last_y s + 320 - slinitpos s - uint (em_async s) * 320 div uint (period s))\<rparr>))
   \<and> (vsync_spacing s > 0 \<longrightarrow>
        nbteared (endframe s) = (if margin s < 0 then nbteared s + 1 else nbteared s))
   \<and> (vsync_spacing s > 0 \<and> period s \<noteq> 0 \<and> cur_diff s = Some d \<and> cur_fb s = Some f
        \<and> cursor (diffmem s d) < length (script (diffmem s d))
        \<and> fst (script (diffmem s d) ! cursor (diffmem s d)) \<ge> 0 \<longrightarrow>
        map_option margin (subFrameInterruptDiff n s)
          = Some (min (margin s)
                    (last_y s + 320 - slinitpos s - uint (em_async s) * 320 div uint (period s))))
   \<and> (vsync_spacing s > 0 \<and> period s \<noteq> 0 \<and> cur_diff s = Some d \<and> pcb s = None
        \<and> (length (script (diffmem s d)) \<le> cursor (diffmem s d)
            \<or> fst (script (diffmem s d) ! cursor (diffmem s d)) < 0) \<longrightarrow>
        map_option nbteared (subFrameInterruptDiff n s)
          = Some (if min (margin s)
                       (last_y s + 320 - slinitpos s - uint (em_async s) * 320 div uint (period s)) < 0
                  then nbteared s + 1 else nbteared s))"
proof (intro conjI impI)
  assume "vsync_spacing s > 0 \<and> period s \<noteq> 0"
  then show "checkMargin s
        = Some (s\<lparr>margin := min (margin s)
                    (last_y s + 320 - slinitpos s - uint (em_async s) * 320 div uint (period s))\<rparr>)"
    by (simp add: checkMargin_eq)
next
  assume "vsync_spacing s > 0"
  then show "nbteared (endframe s) = (if margin s < 0 then nbteared s + 1 else nbteared s)"
    by (rule endframe_nbteared)
next
  assume "vsync_spacing s > 0 \<and> period s \<noteq> 0 \<and> cur_diff s = Some d \<and> cur_fb s = Some f
        \<and> cursor (diffmem s d) < length (script (diffmem s d))
        \<and> fst (script (diffmem s d) ! cursor (diffmem s d)) \<ge> 0"
  then show "map_option margin (subFrameInterruptDiff n s)
          = Some (min (margin s)
                    (last_y s + 320 - slinitpos s - uint (em_async s) * 320 div uint (period s)))"
    using subFrameInterruptDiff_run [of s d f n] by blast
next
  assume "vsync_spacing s > 0 \<and> period s \<noteq> 0 \<and> cur_diff s = Some d \<and> pcb s = None
        \<and> (length (script (diffmem s d)) \<le> cursor (diffmem s d)
            \<or> fst (script (diffmem s d) ! cursor (diffmem s d)) < 0)"
  then show "map_option nbteared (subFrameInterruptDiff n s)
          = Some (if min (margin s)
                       (last_y s + 320 - slinitpos s - uint (em_async s) * 320 div uint (period s)) < 0
                  then nbteared s + 1 else nbteared s)"
    using subFrameInterruptDiff_end [of s d n] by blast
qed

text \<open>4 ms into the upload the margin is 280 scanlines; 30 ms into it the frame is teared.\<close>

theorem margin_and_teared_frames_witness:
  "checkMargin racing = Some (racing\<lparr>margin := 280\<rparr>)
   \<and> nbteared (endframe (overtaken\<lparr>margin := - 240\<rparr>)) = 1
   \<and> map_option margin (subFrameInterruptDiff 0 racing) = Some 280
   \<and> map_option nbteared (subFrameInterruptDiff 0 overtaken) = Some 1"
  using margin_and_teared_frames [of racing 20 10 0]
    margin_and_teared_frames [of "overtaken\<lparr>margin := - 240\<rparr>" 20 10 0]
    margin_and_teared_frames [of overtaken 20 10 0]
  by (simp add: racing_def overtaken_def new_driver_def)

subsection \<open>The three pointers through the state machine\<close>

text \<open>
  No function of the upload state machine writes \<^verbatim>\<open>_fb1\<close>, \<^verbatim>\<open>_fb2\<close> or \<^verbatim>\<open>_mirrorfb\<close> itself;
  they change only where the completion callback runs.
\<close>

lemma bufs_local [simp]:
  "bufs (writes fs s) = bufs s"
  "bufs (endframe s) = bufs s"
  "bufs (initRead d s) = bufs s"
  "bufs (resyncScanLine s) = bufs s"
  "bufs (subFrameTimerStartcb s) = bufs s"
  "bufs (swapdiff s) = bufs s"
  "bufs (swapdummydiff s) = bufs s"
  "bufs (setCB cb s) = bufs s"
  "bufs (computeDummyDiff ev d s) = bufs s"
  by (simp_all add: bufs_def writes_def endframe_def initRead_def resyncScanLine_def
      subFrameTimerStartcb_def getScanLine_def swapdiff_def swapdummydiff_def setCB_def
      computeDummyDiff_def Let_def)

lemma bufs_readDiff: "readDiff d xyl asl s = (a, s') \<Longrightarrow> bufs s' = bufs s"
  by (auto simp: readDiff_def bufs_def Let_def split: if_splits)

lemma bufs_getScanLine: "getScanLine sync s = Some (sl, s') \<Longrightarrow> bufs s' = bufs s"
  by (auto simp: getScanLine_def bufs_def Let_def split: if_splits)

lemma bufs_checkMargin: "checkMargin s = Some s' \<Longrightarrow> bufs s' = bufs s"
  by (auto simp: checkMargin_def bufs_def Let_def bind_eq_Some_conv split: if_splits)

lemma bufs_computeDiff: "computeDiff ev d old new c s = Some s' \<Longrightarrow> bufs s' = bufs s"
  by (auto simp: computeDiff_def bufs_def Let_def split: option.splits if_splits)

lemma bufs_copyfb: "copyfb ev dst src s = Some s' \<Longrightarrow> bufs s' = bufs s"
  by (auto simp: copyfb_def bufs_def split: option.splits)

lemma bufs_update [simp]:
  "bufs (s\<lparr>touch_request_read := a\<rparr>) = bufs s"
  "bufs (s\<lparr>dma_state := b\<rparr>) = bufs s"
  "bufs (s\<lparr>pcb := c\<rparr>) = bufs s"
  "bufs (s\<lparr>armed := e\<rparr>) = bufs s"
  "bufs (s\<lparr>slinitpos := i\<rparr>) = bufs s"
  "bufs (s\<lparr>em_async := j\<rparr>) = bufs s"
  "bufs (s\<lparr>last_y := k\<rparr>) = bufs s"
  "bufs (s\<lparr>stats_nb_uploaded_pixels := l\<rparr>) = bufs s"
  "bufs (s\<lparr>prev_caset_x := m\<rparr>) = bufs s"
  "bufs (s\<lparr>prev_paset_y := n\<rparr>) = bufs s"
  "bufs (s\<lparr>margin := p\<rparr>) = bufs s"
  "bufs (s\<lparr>cur_fb := q\<rparr>) = bufs s"
  "bufs (s\<lparr>cur_diff := r\<rparr>) = bufs s"
  "bufs (s\<lparr>fb2full := u\<rparr>) = bufs s"
  "bufs (s\<lparr>late_start_ratio_override := v\<rparr>) = bufs s"
  by (simp_all add: bufs_def)



lemma bufs_snd_readDiff [simp]: "bufs (snd (readDiff d xyl asl s)) = bufs s"
  by (simp add: readDiff_def bufs_def Let_def)

lemma via_right: "via K s s' \<Longrightarrow> bufs s2 = bufs s' \<Longrightarrow> via K s s2"
  by (cases rule: via.cases) (auto intro: via.intros)

lemma via_left: "via K s s' \<Longrightarrow> bufs s0 = bufs s \<Longrightarrow> via K s0 s'"
  by (induction rule: via.induct) (auto intro: via.intros)

lemma via_trans: "via K s1 s' \<Longrightarrow> via K s s1 \<Longrightarrow> via K s s'"
  by (induction rule: via.induct) (auto intro: via.call via_right)

lemma via_inv:
  assumes K: "\<And>t t'. I (bufs t) \<Longrightarrow> K t = Some t' \<Longrightarrow> I (bufs t')"
  shows "via K s s' \<Longrightarrow> I (bufs s) \<Longrightarrow> I (bufs s')"
  by (induction rule: via.induct) (auto dest: K)

lemma finishFrame_via: "finishFrame K s = Some s' \<Longrightarrow> via K s s'"
proof -
  assume a: "finishFrame K s = Some s'"
  let ?t = "(endframe s)\<lparr>touch_request_read := False, dma_state := DMA_IDLE\<rparr>"
  from a obtain t' where t: "K ?t = Some t'" "s' = t'\<lparr>pcb := None\<rparr>"
    by (auto simp: finishFrame_def Let_def bind_eq_Some_conv)
  have "via K s ?t" by (rule via.keep) simp
  from via.call [OF this t(1), of s'] show ?thesis by (simp add: t(2))
qed


lemma via_finish: "finishFrame K t = Some s' \<Longrightarrow> bufs t = bufs s \<Longrightarrow> via K s s'"
  using via_left [OF finishFrame_via, of K t s' s] by simp




lemma subFrameTimerStartcb2_with_via:
  assumes "subFrameTimerStartcb2_with K s = Some s'"
  shows "via K s s'"
proof (cases "vsync_spacing s > 0")
  case True
  with assms show ?thesis
    by (auto simp: subFrameTimerStartcb2_with_def bind_eq_Some_conv Let_def case_prod_beta
        dest!: bufs_getScanLine split: if_split_asm intro: via.keep elim: via_finish)
next
  case False
  with assms show ?thesis
    by (auto simp: subFrameTimerStartcb2_with_def bind_eq_Some_conv Let_def case_prod_beta
        split: if_split_asm intro: via.keep elim: via_finish)
qed

lemma subFrameInterruptDiff_with_via:
  assumes "subFrameInterruptDiff_with K s = Some s'"
  shows "via K s s'"
  using assms
  by (auto simp: subFrameInterruptDiff_with_def bind_eq_Some_conv Let_def case_prod_beta
        dest!: bufs_checkMargin split: if_split_asm intro: via.keep elim: via_finish)

lemma fire_with_via: "fire_with K s = Some s' \<Longrightarrow> via K s s'"
  by (auto simp: fire_with_def split: option.splits irq.splits
      dest!: subFrameTimerStartcb2_with_via subFrameInterruptDiff_with_via
      intro: via.keep via_left)

lemma waitUpdateAsyncComplete_with_via:
  "waitUpdateAsyncComplete_with K n s = Some s' \<Longrightarrow> via K s s'"
proof (induction n arbitrary: s)
  case 0
  then show ?case by (auto split: if_splits intro: via.keep)
next
  case (Suc n)
  show ?case
  proof (cases "dma_state s = DMA_IDLE")
    case True
    with Suc.prems show ?thesis by (auto intro: via.keep)
  next
    case False
    with Suc.prems obtain s1 where "fire_with K s = Some s1"
      "waitUpdateAsyncComplete_with K n s1 = Some s'"
      by (auto simp: bind_eq_Some_conv)
    then show ?thesis using Suc.IH fire_with_via via_trans by blast
  qed
qed


lemma updateAsync_with_split:
  "updateAsync_with K W (Some f) (Some d) s = W s \<bind> updateAsync_with K Some (Some f) (Some d)"
  by (cases "W s") (simp_all add: updateAsync_with_def)

lemma updateAsync_with_null:
  "fb = None \<or> diff = None \<Longrightarrow> updateAsync_with K W fb diff s = Some s"
  by (auto simp: updateAsync_with_def split: option.splits)

lemma updateAsync_launch_via:
  "updateAsync_with K Some fb diff s = Some s' \<Longrightarrow> via K s s'"
  by (auto simp: updateAsync_with_def bind_eq_Some_conv Let_def case_prod_beta
      split: option.splits if_split_asm intro: via.keep elim: via_finish)

lemma updateAsync_with_waitD:
  "updateAsync_with K W (Some f) (Some d) s = Some s' \<Longrightarrow>
   \<exists>s1. W s = Some s1 \<and> updateAsync_with K Some (Some f) (Some d) s1 = Some s'"
  by (cases "W s") (simp_all add: updateAsync_with_def)

lemma updateAsync_with_via:
  assumes W: "\<And>t t'. W t = Some t' \<Longrightarrow> via K t t'"
    and u: "updateAsync_with K W fb diff s = Some s'"
  shows "via K s s'"
proof (cases "fb = None \<or> diff = None")
  case True
  with u show ?thesis by (simp add: updateAsync_with_null via.keep)
next
  case False
  then obtain f d where fd: "fb = Some f" "diff = Some d" by auto
  from updateAsync_with_waitD [OF u [unfolded fd]] obtain s1 where s1: "W s = Some s1"
    and r: "updateAsync_with K Some fb diff s1 = Some s'"
    unfolding fd by blast
  from updateAsync_launch_via [OF r] W [OF s1] show ?thesis by (rule via_trans)
qed

lemma buffer2fullCB_with_inv:
  assumes A: "\<And>a b m. I (a, b, m) \<Longrightarrow> I (b, a, b)"
    and L: "\<And>fb d t t'. I (bufs t) \<Longrightarrow> L fb d t = Some t' \<Longrightarrow> I (bufs t')"
    and i: "I (bufs s)" and c: "buffer2fullCB_with L s = Some s'"
  shows "I (bufs s')"
proof -
  have sw: "I (bufs ((swapfb t)\<lparr>mirrorfb := fb1 (swapfb t), fb2full := False\<rparr>))"
    if "bufs t = bufs s" for t
  proof -
    have "I (bufs t)" using i by (simp only: that)
    then have "I (fb1 t, fb2 t, mirrorfb t)" by (simp only: bufs_def)
    from A [OF this] show ?thesis by (simp add: bufs_def swapfb_def)
  qed
  show ?thesis
  proof (cases "mirrorfb s \<noteq> None")
    case True
    let ?t = "(swapfb (swapdiff s))\<lparr>mirrorfb := fb1 (swapfb (swapdiff s)), fb2full := False\<rparr>"
    from c True obtain t' where t: "L (fb1 ?t) (diff1 ?t) ?t = Some t'" "s' = setCB None t'"
      by (auto simp: buffer2fullCB_with_def bind_eq_Some_conv Let_def)
    have "I (bufs ?t)" by (rule sw) simp
    from L [OF this t(1)] show ?thesis by (simp add: t(2))
  next
    case False
    let ?t = "(swapfb (swapdummydiff s))\<lparr>mirrorfb := fb1 (swapfb (swapdummydiff s)),
                                         fb2full := False\<rparr>"
    from c False obtain t' where t: "L (fb1 ?t) (Some (dummydiff1 ?t)) ?t = Some t'"
      "s' = setCB None t'"
      by (auto simp: buffer2fullCB_with_def bind_eq_Some_conv Let_def)
    have "I (bufs ?t)" by (rule sw) simp
    from L [OF this t(1)] show ?thesis by (simp add: t(2))
  qed
qed

lemma invoke_pcb_inv:
  assumes A: "\<And>a b m. I (a, b, m) \<Longrightarrow> I (b, a, b)"
  shows "I (bufs s) \<Longrightarrow> invoke_pcb n s = Some s' \<Longrightarrow> I (bufs s')"
proof (induction n arbitrary: s s')
  case 0
  then show ?case by (auto split: option.splits callback.splits)
next
  case (Suc n)
  let ?K = "invoke_pcb n"
  let ?W = "waitUpdateAsyncComplete_with ?K n"
  have K: "\<And>t t'. I (bufs t) \<Longrightarrow> ?K t = Some t' \<Longrightarrow> I (bufs t')"
    using Suc.IH by blast
  have L: "I (bufs t')" if i: "I (bufs t)" and u: "updateAsync_with ?K ?W fb d t = Some t'"
    for fb d t t'
  proof -
    have "via ?K t t'"
      by (rule updateAsync_with_via [of ?W ?K, OF _ u]) (rule waitUpdateAsyncComplete_with_via)
    from via_inv [of I ?K, OF K this i] show ?thesis .
  qed
  show ?case
  proof (cases "pcb s")
    case None
    with Suc.prems show ?thesis by simp
  next
    case (Some cb)
    with Suc.prems have "buffer2fullCB_with (updateAsync_with ?K ?W) s = Some s'"
      by (cases cb) simp
    from buffer2fullCB_with_inv [of I "updateAsync_with ?K ?W", OF A L Suc.prems(1) this]
    show ?thesis .
  qed
qed

lemma wait_inv:
  assumes A: "\<And>a b m. I (a, b, m) \<Longrightarrow> I (b, a, b)"
    and i: "I (bufs s)" and w: "waitUpdateAsyncComplete n s = Some s'"
  shows "I (bufs s')"
proof -
  have K: "I (bufs t')" if "I (bufs t)" "invoke_pcb n t = Some t'" for t t'
    using that by (rule invoke_pcb_inv [of I, rotated]) (erule A)
  have "via (invoke_pcb n) s s'"
    using w by (simp add: waitUpdateAsyncComplete_def waitUpdateAsyncComplete_with_via)
  from via_inv [of I "invoke_pcb n", OF K this i] show ?thesis .
qed

lemma fire_inv:
  assumes A: "\<And>a b m. I (a, b, m) \<Longrightarrow> I (b, a, b)"
    and i: "I (bufs s)" and w: "fire n s = Some s'"
  shows "I (bufs s')"
proof -
  have K: "I (bufs t')" if "I (bufs t)" "invoke_pcb n t = Some t'" for t t'
    using that by (rule invoke_pcb_inv [of I, rotated]) (erule A)
  have "via (invoke_pcb n) s s'"
    using w by (simp add: fire_def fire_with_via)
  from via_inv [of I "invoke_pcb n", OF K this i] show ?thesis .
qed

lemma updateAsync_inv:
  assumes A: "\<And>a b m. I (a, b, m) \<Longrightarrow> I (b, a, b)"
    and i: "I (bufs s)" and w: "updateAsync n fb d s = Some s'"
  shows "I (bufs s')"
proof -
  have K: "I (bufs t')" if "I (bufs t)" "invoke_pcb n t = Some t'" for t t'
    using that by (rule invoke_pcb_inv [of I, rotated]) (erule A)
  have W: "\<And>t t'. waitUpdateAsyncComplete n t = Some t' \<Longrightarrow> via (invoke_pcb n) t t'"
    by (simp add: waitUpdateAsyncComplete_def waitUpdateAsyncComplete_with_via)
  have "via (invoke_pcb n) s s'"
    by (rule updateAsync_with_via [of "waitUpdateAsyncComplete n" "invoke_pcb n" fb d s s'])
       (use W w in \<open>simp_all add: updateAsync_def\<close>)
  from via_inv [of I "invoke_pcb n", OF K this i] show ?thesis .
qed

lemma interrupts_inv:
  assumes A: "\<And>a b m. I (a, b, m) \<Longrightarrow> I (b, a, b)"
  shows "I (bufs s) \<Longrightarrow> interrupts k n s = Some s' \<Longrightarrow> I (bufs s')"
proof (induction k arbitrary: s)
  case 0
  then show ?case by simp
next
  case (Suc k)
  show ?case
  proof (cases "armed s = None")
    case True
    with Suc.prems show ?thesis by simp
  next
    case False
    with Suc.prems obtain s1 where "fire n s = Some s1" "interrupts k n s1 = Some s'"
      by (auto simp: bind_eq_Some_conv)
    then show ?thesis using Suc.IH fire_inv [of I, rotated, OF Suc.prems(1)] A by blast
  qed
qed

lemma waitFb2Free_inv:
  assumes A: "\<And>a b m. I (a, b, m) \<Longrightarrow> I (b, a, b)"
  shows "I (bufs s) \<Longrightarrow> waitFb2Free k n s = Some s' \<Longrightarrow> I (bufs s')"
proof (induction k arbitrary: s)
  case 0
  then show ?case by (simp split: if_split_asm)
next
  case (Suc k)
  show ?case
  proof (cases "fb2full s")
    case False
    with Suc.prems show ?thesis by simp
  next
    case True
    with Suc.prems obtain s1 where "fire n s = Some s1" "waitFb2Free k n s1 = Some s'"
      by (auto simp: bind_eq_Some_conv)
    then show ?thesis using Suc.IH fire_inv [of I, rotated, OF Suc.prems(1)] A by blast
  qed
qed

lemma waitUpdateAsyncComplete_with_idle_after:
  "waitUpdateAsyncComplete_with K n s = Some s' \<Longrightarrow> dma_state s' = DMA_IDLE"
  by (induction n arbitrary: s) (auto simp: bind_eq_Some_conv split: if_split_asm)

lemma buffer2fullCB_mirror:
  assumes "buffer2fullCB n s = Some s'"
  shows "mirrorfb s' = fb1 s'"
proof -
  let ?I = "\<lambda>(a, b, m). m = a"
  have A: "\<And>a b m. ?I (a, b, m) \<Longrightarrow> ?I (b, a, b)" by simp
  have L: "?I (bufs t')" if "?I (bufs t)" "updateAsync n fb d t = Some t'" for fb d t t'
    using that by (rule updateAsync_inv [of ?I, rotated]) simp
  let ?t = "\<lambda>u. (swapfb u)\<lparr>mirrorfb := fb1 (swapfb u), fb2full := False\<rparr>"
  have P: "?I (bufs (?t u))" for u by (simp add: bufs_def)
  from assms obtain u fb d t' where "updateAsync n fb d (?t u) = Some t'" "s' = setCB None t'"
    unfolding buffer2fullCB_def buffer2fullCB_with_def
    by (auto simp: bind_eq_Some_conv Let_def split: if_split_asm)
  with L [OF P] have "?I (bufs s')" by auto
  then show ?thesis by (simp add: bufs_def)
qed

end
